theory Spec2Isabelle
  imports Main "HOL-Library.Word"
begin

section \<open>Vehicle emission testing: a shallow embedding of Vehicle\_emission\_testing.cpp\<close>

text \<open>
  The program computes an emission level for each vehicle through a strategy object,
  drives a test record through the states Pending, InProgress and Completed, and stores
  the verdict of every completed test in a global map guarded by a mutex.

  The embedding keeps the source's names. Objects are values, mutation through a
  \<^verbatim>\<open>shared_ptr\<close> is explicit state passing, a thrown exception is a value returned
  next to the state the object has at the throw, and the text written to the streams is
  returned as a list of inserted items.
\<close>

subsection \<open>The type double\<close>

text \<open>
  A \<^verbatim>\<open>double\<close> is an IEEE 754 binary64 value: 1 sign bit, 11 exponent bits, 52
  fraction bits. It is modelled by its 64-bit pattern, so every bit pattern (both zeros,
  subnormals, infinities and NaNs) is a value of the type. Arithmetic rounds to nearest,
  ties to even, which is the default rounding mode.
\<close>

type_synonym double = "64 word"

definition sign_bit :: "double \<Rightarrow> bool" where
  "sign_bit d = (2 ^ 63 \<le> unat d)"

definition exponent :: "double \<Rightarrow> nat" where
  "exponent d = (unat d div 2 ^ 52) mod 2048"

definition fraction :: "double \<Rightarrow> nat" where
  "fraction d = unat d mod 2 ^ 52"

text \<open>Assembling a bit pattern from its three fields; each field is masked to its width.\<close>

definition pack :: "bool \<Rightarrow> nat \<Rightarrow> nat \<Rightarrow> double" where
  "pack s e f = word_of_nat ((if s then 2 ^ 63 else 0) + (e mod 2048) * 2 ^ 52 + f mod 2 ^ 52)"

definition isnan :: "double \<Rightarrow> bool" where
  "isnan d = (exponent d = 2047 \<and> fraction d \<noteq> 0)"

definition isinf :: "double \<Rightarrow> bool" where
  "isinf d = (exponent d = 2047 \<and> fraction d = 0)"

text \<open>
  A finite double has the value \<open>\<plusminus> significand * 2 ^ binexp\<close>: the hidden bit is set
  unless the exponent field is 0 (zero and the subnormals), and the exponent field 0
  counts as 1.
\<close>

definition significand :: "double \<Rightarrow> nat" where
  "significand d = (if exponent d = 0 then fraction d else 2 ^ 52 + fraction d)"

definition binexp :: "double \<Rightarrow> int" where
  "binexp d = int (max (exponent d) 1) - 1075"

text \<open>
  \<open>scaled d\<close> is the value of \<open>d\<close> times \<open>2 ^ 1074\<close>, an integer for every finite
  double. The same formula puts an infinity beyond every finite value of its sign, so
  \<open>scaled\<close> orders all doubles that are not NaN as IEEE 754 does; the two zeros both
  have \<open>scaled d = 0\<close>. Every comparison with a NaN is false.
\<close>

definition scaled :: "double \<Rightarrow> int" where
  "scaled d = (let m = int (significand d * 2 ^ (max (exponent d) 1 - 1))
               in if sign_bit d then - m else m)"

definition dlt :: "double \<Rightarrow> double \<Rightarrow> bool" where
  "dlt a b = (\<not> isnan a \<and> \<not> isnan b \<and> scaled a < scaled b)"

definition dle :: "double \<Rightarrow> double \<Rightarrow> bool" where
  "dle a b = (\<not> isnan a \<and> \<not> isnan b \<and> scaled a \<le> scaled b)"

text \<open>The number of bits of a natural number.\<close>

fun bitlen :: "nat \<Rightarrow> nat" where
  "bitlen n = (if n = 0 then 0 else 1 + bitlen (n div 2))"

declare bitlen.simps [simp del]

text \<open>
  \<open>round_pack s M e\<close> is the double nearest to \<open>\<plusminus> M * 2 ^ e\<close> for \<open>M > 0\<close>, ties
  to even: \<open>q\<close> is the exponent of the last kept bit (at least that of the subnormals),
  \<open>m\<close> the significand rounded to that bit; a significand rounded up to \<open>2 ^ 53\<close>
  moves to the next exponent, and a result beyond the largest finite double is an
  infinity.
\<close>

definition round_pack :: "bool \<Rightarrow> nat \<Rightarrow> int \<Rightarrow> double" where
  "round_pack s M e =
     (let q = max (e + int (bitlen M) - 53) (- 1074);
          m = (if q \<le> e then M * 2 ^ nat (e - q)
               else let sh = nat (q - e);
                        t = M div 2 ^ sh;
                        r = M mod 2 ^ sh;
                        h = 2 ^ (sh - 1)
                    in if h < r \<or> (r = h \<and> odd t) then t + 1 else t);
          q' = (if m = 2 ^ 53 then q + 1 else q);
          m' = (if m = 2 ^ 53 then 2 ^ 52 else m)
      in if 971 < q' then pack s 2047 0
         else if m' < 2 ^ 52 then pack s 0 m'
         else pack s (nat (q' + 1075)) (m' - 2 ^ 52))"

text \<open>
  IEEE 754 leaves the sign and payload of a NaN result open; the program observes a NaN
  through comparisons only, so every NaN result is the canonical quiet NaN here.
\<close>

definition quiet_NaN :: double where
  "quiet_NaN = pack False 2047 (2 ^ 51)"

text \<open>The operator \<^verbatim>\<open>*\<close> on doubles.\<close>

definition dmul :: "double \<Rightarrow> double \<Rightarrow> double" where
  "dmul a b =
     (let s = (sign_bit a \<noteq> sign_bit b) in
      if isnan a \<or> isnan b then quiet_NaN
      else if isinf a \<or> isinf b then
        (if significand a = 0 \<or> significand b = 0 then quiet_NaN else pack s 2047 0)
      else if significand a = 0 \<or> significand b = 0 then pack s 0 0
      else round_pack s (significand a * significand b) (binexp a + binexp b))"

text \<open>
  The conversion of an \<^verbatim>\<open>int\<close> to \<^verbatim>\<open>double\<close>, as in \<^verbatim>\<open>return 0;\<close> and
  \<^verbatim>\<open>emissionLevel < 0\<close>. It also writes the integer-valued literals of the source
  (\<^verbatim>\<open>2000.0\<close>, \<^verbatim>\<open>180.0\<close>).
\<close>

definition double_of_int :: "int \<Rightarrow> double" where
  "double_of_int i = (if i = 0 then pack False 0 0 else round_pack (i < 0) (nat \<bar>i\<bar>) 0)"

text \<open>The literal \<^verbatim>\<open>0.1\<close>: the double nearest to one tenth, \<open>0x3FB999999999999A\<close>.\<close>

definition literal_0_1 :: double where
  "literal_0_1 = 0x3FB999999999999A"

subsection \<open>Output and exceptions\<close>

text \<open>
  What the program writes is a list of the items inserted with \<^verbatim>\<open><<\<close>, each tagged
  with its stream. A double is kept as an item: its decimal rendering is not modelled.
\<close>

datatype stream = cout | cerr

datatype out_item = Str string | Dbl double | Num int | Endl

type_synonym printed = "(stream \<times> out_item) list"

definition put :: "stream \<Rightarrow> out_item list \<Rightarrow> printed" where
  "put s items = map (Pair s) items"

text \<open>
  The exceptions of the program, each with its \<^verbatim>\<open>what()\<close> text. The text of an
  exception thrown by the standard library is implementation-defined; the model uses
  the name of the throwing function.
\<close>

datatype exn = invalid_argument string | out_of_range string

subsection \<open>Emission strategies and vehicles\<close>

datatype EmissionStrategy = GasEmissionStrategy | ElectricEmissionStrategy

fun calculateEmission :: "EmissionStrategy \<Rightarrow> double \<Rightarrow> double" where
  "calculateEmission GasEmissionStrategy engineSize = dmul engineSize literal_0_1"
| "calculateEmission ElectricEmissionStrategy batteryCapacity = double_of_int 0"

text \<open>
  A vehicle is a \<^verbatim>\<open>GasVehicle\<close> or an \<^verbatim>\<open>ElectricVehicle\<close>, with the fields age,
  emissionStandard, its own parameter (engineSize or batteryCapacity) and the strategy
  passed to its constructor. The field \<^verbatim>\<open>type\<close> is fixed by the class.
\<close>

datatype Vehicle =
    GasVehicle int string double EmissionStrategy
  | ElectricVehicle int string double EmissionStrategy

fun getEmissionLevel :: "Vehicle \<Rightarrow> double" where
  "getEmissionLevel (GasVehicle a e engineSize emissionStrategy) =
     calculateEmission emissionStrategy engineSize"
| "getEmissionLevel (ElectricVehicle a e batteryCapacity emissionStrategy) =
     calculateEmission emissionStrategy batteryCapacity"

definition Vehicle_displayDetails :: "string \<Rightarrow> int \<Rightarrow> string \<Rightarrow> printed" where
  "Vehicle_displayDetails type age emissionStandard =
     put cout [Str ''Vehicle Type: '', Str type, Str (CHR 0x0A # ''Age: ''), Num age,
               Str (CHR 0x0A # ''Emission Standard: ''), Str emissionStandard, Endl]"

fun displayDetails :: "Vehicle \<Rightarrow> printed" where
  "displayDetails (GasVehicle a e engineSize emissionStrategy) =
     Vehicle_displayDetails ''Gas'' a e
     @ put cout [Str ''Engine Size: '', Dbl engineSize, Str '' cc'', Endl]"
| "displayDetails (ElectricVehicle a e batteryCapacity emissionStrategy) =
     Vehicle_displayDetails ''Electric'' a e
     @ put cout [Str ''Battery Capacity: '', Dbl batteryCapacity, Str '' kWh'', Endl]"

subsection \<open>The test record and its states\<close>

datatype EmissionTestState = PendingState | InProgressState | CompletedState

record EmissionTest =
  vehicleID :: string
  state :: EmissionTestState
  complianceStatus :: bool

text \<open>The constructor: the verdict starts as false, whatever the initial state.\<close>

definition new_EmissionTest :: "string \<Rightarrow> EmissionTestState \<Rightarrow> EmissionTest" where
  "new_EmissionTest vid initialState =
     \<lparr>vehicleID = vid, state = initialState, complianceStatus = False\<rparr>"

definition setState :: "EmissionTest \<Rightarrow> EmissionTestState \<Rightarrow> EmissionTest" where
  "setState test newState = test\<lparr>state := newState\<rparr>"

definition setComplianceStatus :: "EmissionTest \<Rightarrow> bool \<Rightarrow> EmissionTest" where
  "setComplianceStatus test status = test\<lparr>complianceStatus := status\<rparr>"

definition getComplianceStatus :: "EmissionTest \<Rightarrow> bool" where
  "getComplianceStatus test = complianceStatus test"

definition getVehicleID :: "EmissionTest \<Rightarrow> string" where
  "getVehicleID test = vehicleID test"

text \<open>
  A handler returns the exception it threw, if any, the test record as the call left
  it (the record is mutated in place, so what was written before a throw stays), and
  the output of the call.
\<close>

type_synonym handled = "exn option \<times> EmissionTest \<times> printed"

definition prepend_output :: "printed \<Rightarrow> handled \<Rightarrow> handled" where
  "prepend_output out r = (case r of (thrown, test, out') \<Rightarrow> (thrown, test, out @ out'))"

definition InProgressState_handleTest :: "EmissionTest \<Rightarrow> Vehicle \<Rightarrow> double \<Rightarrow> handled" where
  "InProgressState_handleTest test vehicle legalLimit =
     (let emissionLevel = getEmissionLevel vehicle in
      if dlt emissionLevel (double_of_int 0)
      then (Some (invalid_argument ''Invalid emission level.''), test, [])
      else
        let status = dle emissionLevel legalLimit;
            test1 = setComplianceStatus test status;
            test2 = setState test1 CompletedState
        in (None, test2,
            put cout [Str ''Vehicle ID: '', Str (getVehicleID test2),
                      Str '' | Emission Level: '', Dbl emissionLevel,
                      Str '' | Compliance: '', Str (if status then ''Pass'' else ''Fail''),
                      Endl]))"

definition CompletedState_handleTest :: "EmissionTest \<Rightarrow> Vehicle \<Rightarrow> double \<Rightarrow> handled" where
  "CompletedState_handleTest test vehicle legalLimit =
     (None, test,
      put cout [Str ''Test for '', Str (getVehicleID test),
                Str ('' is already completed.'' @ [CHR 0x0A])])"

text \<open>
  \<^verbatim>\<open>performTest\<close> dispatches on the state object of the record, and the handler of
  the Pending state calls \<^verbatim>\<open>performTest\<close> again after it has set the state to
  InProgress.
\<close>

function performTest :: "EmissionTest \<Rightarrow> Vehicle \<Rightarrow> double \<Rightarrow> handled"
  and PendingState_handleTest :: "EmissionTest \<Rightarrow> Vehicle \<Rightarrow> double \<Rightarrow> handled" where
  "performTest test vehicle legalLimit =
     (case state test of
        PendingState \<Rightarrow> PendingState_handleTest test vehicle legalLimit
      | InProgressState \<Rightarrow> InProgressState_handleTest test vehicle legalLimit
      | CompletedState \<Rightarrow> CompletedState_handleTest test vehicle legalLimit)"
| "PendingState_handleTest test vehicle legalLimit =
     prepend_output
       (put cout [Str ''Test for '', Str (getVehicleID test),
                  Str ('' is now in progress.'' @ [CHR 0x0A])])
       (performTest (setState test InProgressState) vehicle legalLimit)"
  by pat_completeness auto
termination
  by (relation "measure (\<lambda>x. case x of
          Inl (test, _) \<Rightarrow> (if state test = PendingState then 2 else 0)
        | Inr _ \<Rightarrow> 1)")
     (auto simp: setState_def)

subsection \<open>Reachable test records\<close>

text \<open>
  The program builds a test record with the constructor and changes it through
  \<^verbatim>\<open>performTest\<close> only; the setters are called by the state handlers alone. A record
  is reachable when the program can hold it: after construction, between the two steps
  of a call that started in Pending, and after any call of \<^verbatim>\<open>performTest\<close>, whether it
  returned or threw.
\<close>

inductive reachable :: "EmissionTest \<Rightarrow> bool" where
  constructed: "reachable (new_EmissionTest vid initialState)"
| started: "reachable test \<Longrightarrow> state test = PendingState \<Longrightarrow>
     reachable (setState test InProgressState)"
| performed: "reachable test \<Longrightarrow> performTest test vehicle legalLimit = (thrown, test', out) \<Longrightarrow>
     reachable test'"

code_pred reachable .

subsection \<open>The result registry and runTest\<close>

text \<open>
  \<^verbatim>\<open>testResults\<close> is a map from identifiers to verdicts. \<^verbatim>\<open>runTest\<close> takes the map and
  returns it as the call leaves it, with the output of the call. The first handler
  catches \<^verbatim>\<open>std::invalid_argument\<close>, the second every other \<^verbatim>\<open>std::exception\<close>.
\<close>

definition runTest :: "Vehicle \<Rightarrow> string \<Rightarrow> double \<Rightarrow> (string \<rightharpoonup> bool) \<Rightarrow> (string \<rightharpoonup> bool) \<times> printed" where
  "runTest vehicle vid legalLimit testResults =
     (let test = new_EmissionTest vid PendingState in
      case performTest test vehicle legalLimit of
        (None, test', out) \<Rightarrow> (testResults(vid \<mapsto> getComplianceStatus test'), out)
      | (Some (invalid_argument what), test', out) \<Rightarrow>
          (testResults,
           out @ put cerr [Str ''Invalid argument for Vehicle ID '', Str vid, Str '': '', Str what, Endl])
      | (Some (out_of_range what), test', out) \<Rightarrow>
          (testResults,
           out @ put cerr [Str ''Error for Vehicle ID '', Str vid, Str '': '', Str what, Endl]))"

subsection \<open>The runner in main\<close>

text \<open>\<^verbatim>\<open>std::to_string\<close> of an \<^verbatim>\<open>int\<close>: the decimal digits, after a minus sign if negative.\<close>

definition digit_char :: "nat \<Rightarrow> char" where
  "digit_char n = ''0123456789'' ! n"

fun digits_of :: "nat \<Rightarrow> string" where
  "digits_of n = (if n < 10 then [digit_char n] else digits_of (n div 10) @ [digit_char (n mod 10)])"

declare digits_of.simps [simp del]

definition to_string :: "int \<Rightarrow> string" where
  "to_string i = (if i < 0 then CHR ''-'' # digits_of (nat (- i)) else digits_of (nat i))"

text \<open>
  The loop that starts the threads: one thread per vehicle, in the order of the vector,
  with the arguments of its \<^verbatim>\<open>runTest\<close> call. The counter \<^verbatim>\<open>vehicleID\<close> of \<^verbatim>\<open>main\<close>
  (\<open>nextID\<close> here, since the record field has the name) is an
  \<^verbatim>\<open>int\<close> that counts the threads started, which stays far below \<open>2 ^ 31\<close>; it is
  modelled without a bound.
\<close>

fun spawn :: "Vehicle list \<Rightarrow> int \<Rightarrow> (Vehicle \<times> string) list" where
  "spawn [] nextID = []"
| "spawn (vehicle # vehicles) nextID =
     (vehicle, ''Vehicle_'' @ to_string nextID) # spawn vehicles (nextID + 1)"

text \<open>
  Each thread runs \<^verbatim>\<open>runTest\<close> on its own arguments. A thread touches shared state
  only in the section guarded by \<^verbatim>\<open>resultMutex\<close>: its test record is its own and the
  vehicles are only read. So a thread takes two steps that other threads can see the
  order of. In the first it builds its record and calls \<^verbatim>\<open>performTest\<close>; if that throws,
  the handler prints and the thread is done, otherwise the thread is ready to store the
  verdict of its record. In the second it holds the lock and stores the verdict under
  its identifier. The steps of different threads interleave in any order. A thread that
  \<^verbatim>\<open>main\<close> has not started yet is a thread that has not taken its first step.
\<close>

datatype phase = Started | Ready bool | Done

definition thread_test :: "Vehicle \<times> string \<Rightarrow> double \<Rightarrow> phase" where
  "thread_test call legalLimit =
     (case performTest (new_EmissionTest (snd call) PendingState) (fst call) legalLimit of
        (None, test', out) \<Rightarrow> Ready (getComplianceStatus test')
      | (Some e, test', out) \<Rightarrow> Done)"

inductive thread_step ::
  "(Vehicle \<times> string) list \<Rightarrow> double \<Rightarrow>
   phase list \<times> (string \<rightharpoonup> bool) \<Rightarrow> phase list \<times> (string \<rightharpoonup> bool) \<Rightarrow> bool"
  for calls legalLimit where
  test: "i < length calls \<Longrightarrow> phases ! i = Started \<Longrightarrow>
     thread_step calls legalLimit (phases, testResults)
       (phases[i := thread_test (calls ! i) legalLimit], testResults)"
| store: "i < length calls \<Longrightarrow> phases ! i = Ready status \<Longrightarrow>
     thread_step calls legalLimit (phases, testResults)
       (phases[i := Done], testResults(snd (calls ! i) \<mapsto> status))"

code_pred thread_step .

text \<open>
  An execution starts with every thread at its first step and the map \<^verbatim>\<open>testResults\<close>
  empty, as it is when the program starts. The loop of \<^verbatim>\<open>join\<close> calls returns when
  every thread is done.
\<close>

inductive execution ::
  "(Vehicle \<times> string) list \<Rightarrow> double \<Rightarrow> phase list \<times> (string \<rightharpoonup> bool) \<Rightarrow> bool"
  for calls legalLimit where
  start: "execution calls legalLimit (replicate (length calls) Started, Map.empty)"
| step: "execution calls legalLimit s \<Longrightarrow> thread_step calls legalLimit s s' \<Longrightarrow>
     execution calls legalLimit s'"

code_pred execution .

definition joined :: "phase list \<Rightarrow> bool" where
  "joined phases = list_all (\<lambda>p. p = Done) phases"

text \<open>
  For comparison, the calls of \<^verbatim>\<open>runTest\<close> made one after the other, in the order of
  the list.
\<close>

fun run_in_order :: "(Vehicle \<times> string) list \<Rightarrow> double \<Rightarrow> (string \<rightharpoonup> bool) \<Rightarrow> (string \<rightharpoonup> bool)" where
  "run_in_order [] legalLimit testResults = testResults"
| "run_in_order ((vehicle, vid) # calls) legalLimit testResults =
     run_in_order calls legalLimit (fst (runTest vehicle vid legalLimit testResults))"

text \<open>The fleet and the legal limit of \<^verbatim>\<open>main\<close>.\<close>

definition main_vehicles :: "Vehicle list" where
  "main_vehicles =
     [GasVehicle 5 ''BS6'' (double_of_int 2000) GasEmissionStrategy,
      ElectricVehicle 2 ''EV'' (double_of_int 50) ElectricEmissionStrategy,
      GasVehicle 10 ''BS4'' (double_of_int 1500) GasEmissionStrategy]"

definition main_legalLimit :: double where
  "main_legalLimit = double_of_int 180"

subsection \<open>The vehicle-details query of the menu\<close>

text \<open>
  \<^verbatim>\<open>inputID.substr(8)\<close> throws \<^verbatim>\<open>std::out_of_range\<close> when the position is beyond the
  end of the string.
\<close>

definition substr :: "string \<Rightarrow> nat \<Rightarrow> exn + string" where
  "substr s pos =
     (if length s < pos then Inl (out_of_range ''basic_string::substr'') else Inr (drop pos s))"

definition isspace :: "char \<Rightarrow> bool" where
  "isspace c = (c \<in> set [CHR '' '', CHR 0x09, CHR 0x0A, CHR 0x0B, CHR 0x0C, CHR 0x0D])"

definition isdigit :: "char \<Rightarrow> bool" where
  "isdigit c = (c \<in> set ''0123456789'')"

definition digit_value :: "char \<Rightarrow> nat" where
  "digit_value c = of_char c - 48"

definition decimal_value :: "string \<Rightarrow> nat" where
  "decimal_value ds = foldl (\<lambda>a c. 10 * a + digit_value c) 0 ds"

text \<open>
  \<^verbatim>\<open>std::stoi\<close> in base 10: it skips leading white space, reads an optional sign and
  the longest run of digits, and ignores what follows. It throws
  \<^verbatim>\<open>std::invalid_argument\<close> when there is no digit to read and \<^verbatim>\<open>std::out_of_range\<close>
  when the number does not fit an \<^verbatim>\<open>int\<close>.
\<close>

definition stoi :: "string \<Rightarrow> exn + int" where
  "stoi str =
     (let s1 = dropWhile isspace str;
          neg = (s1 \<noteq> [] \<and> hd s1 = CHR ''-'');
          s2 = (if s1 \<noteq> [] \<and> (hd s1 = CHR ''-'' \<or> hd s1 = CHR ''+'') then tl s1 else s1);
          ds = takeWhile isdigit s2
      in if ds = [] then Inl (invalid_argument ''stoi'')
         else
           let v = (if neg then - int (decimal_value ds) else int (decimal_value ds))
           in if v < - (2 ^ 31) \<or> 2 ^ 31 - 1 < v then Inl (out_of_range ''stoi'') else Inr v)"

text \<open>
  The branch \<^verbatim>\<open>choice == 2\<close> of the menu, for the identifier read into \<^verbatim>\<open>inputID\<close>.
  Nothing in \<^verbatim>\<open>main\<close> catches an exception, so a throw ends the program through
  \<^verbatim>\<open>std::terminate\<close>. The subtraction \<^verbatim>\<open>stoi(...) - 1\<close> is on \<^verbatim>\<open>int\<close>: it overflows
  at the least \<^verbatim>\<open>int\<close>, which is undefined behaviour.
\<close>

datatype query_result = Printed printed | Terminated exn | Undefined_behaviour

definition checkVehicleDetails :: "Vehicle list \<Rightarrow> string \<Rightarrow> query_result" where
  "checkVehicleDetails vehicles inputID =
     (case substr inputID 8 of
        Inl e \<Rightarrow> Terminated e
      | Inr s \<Rightarrow>
          (case stoi s of
             Inl e \<Rightarrow> Terminated e
           | Inr n \<Rightarrow>
               if n = - (2 ^ 31) then Undefined_behaviour
               else
                 let index = n - 1 in
                 if 0 \<le> index \<and> nat index < length vehicles
                 then Printed (displayDetails (vehicles ! nat index))
                 else Printed (put cout [Str ''Invalid Vehicle ID.'', Endl])))"

text \<open>
  What holds of every state of an execution: a thread that has not stored has no entry
  under its identifier, a thread that is ready holds the verdict of its vehicle, and a
  thread that is done has the entry of its vehicle, or none when its test threw.
\<close>

definition thread_inv ::
  "(Vehicle \<times> string) list \<Rightarrow> double \<Rightarrow> phase list \<times> (string \<rightharpoonup> bool) \<Rightarrow> bool" where
  "thread_inv calls legalLimit s =
     (length (fst s) = length calls
      \<and> (\<forall>k. k \<notin> snd ` set calls \<longrightarrow> snd s k = None)
      \<and> (\<forall>i < length calls.
           (fst s ! i = Started \<longrightarrow> snd s (snd (calls ! i)) = None)
         \<and> (\<forall>b. fst s ! i = Ready b \<longrightarrow>
               snd s (snd (calls ! i)) = None
               \<and> \<not> dlt (getEmissionLevel (fst (calls ! i))) (double_of_int 0)
               \<and> b = dle (getEmissionLevel (fst (calls ! i))) legalLimit)
         \<and> (fst s ! i = Done \<longrightarrow>
               snd s (snd (calls ! i)) =
                 (if dlt (getEmissionLevel (fst (calls ! i))) (double_of_int 0) then None
                  else Some (dle (getEmissionLevel (fst (calls ! i))) legalLimit)))))"

section \<open>Properties\<close>

subsection \<open>Evaluating doubles\<close>

lemma bitlen_0 [simp]: "bitlen 0 = 0"
  by (simp add: bitlen.simps)

lemma bitlen_Suc_0 [simp]: "bitlen (Suc 0) = 1"
  by (simp add: bitlen.simps [of "Suc 0"])

lemma bitlen_numeral [simp]: "bitlen (numeral k) = 1 + bitlen (numeral k div 2)"
  by (subst bitlen.simps) simp

lemmas double_defs = sign_bit_def exponent_def fraction_def pack_def isnan_def isinf_def
  significand_def binexp_def scaled_def dlt_def dle_def round_pack_def quiet_NaN_def dmul_def
  double_of_int_def literal_0_1_def

lemma double_of_int_0: "double_of_int 0 = 0"
  by (simp add: double_defs)

text \<open>
  The literal \<open>0.1\<close> is \<open>7205759403792794 * 2 ^ (- 56)\<close>, within half a unit of the last
  place of one tenth: ten times the significand differs from \<open>2 ^ 56\<close> by 4, less than 5.
\<close>

lemma literal_0_1_nearest:
  "significand literal_0_1 = 7205759403792794 \<and> binexp literal_0_1 = - 56
   \<and> 10 * 7205759403792794 = (2::nat) ^ 56 + 4"
  by (simp add: double_defs)

text \<open>
  Products and conversions on which rounding, the subnormals and the special values
  show: \<open>3 * 0.1\<close> is \<open>0.30000000000000004\<close>, the largest double times \<open>0.1\<close> stays
  finite, the least subnormal times \<open>0.1\<close> is zero, the sign of a zero product is the
  sign of the factor, infinity stays infinity, a NaN gives a NaN, and
  \<open>2 ^ 53 + 1\<close> and \<open>2 ^ 53 + 3\<close> are ties that go to the even neighbour.
\<close>

lemma dmul_examples:
  "dmul (double_of_int 3) literal_0_1 = 0x3FD3333333333334"
  "dmul literal_0_1 literal_0_1 = 0x3F847AE147AE147C"
  "dmul 0x7FEFFFFFFFFFFFFF literal_0_1 = 0x7FB9999999999999"
  "dmul 0x0010000000000000 literal_0_1 = 0x000199999999999A"
  "dmul 0x0000000000000001 literal_0_1 = 0"
  "dmul 0x8000000000000000 literal_0_1 = 0x8000000000000000"
  "dmul 0x7FF0000000000000 literal_0_1 = 0x7FF0000000000000"
  "isnan (dmul 0x7FF0000000000001 literal_0_1)"
  "dmul (double_of_int (- 50)) literal_0_1 = 0xC014000000000000"
  by (simp_all add: double_defs Let_def)

lemma double_of_int_examples:
  "double_of_int 1 = 0x3FF0000000000000"
  "double_of_int 180 = 0x4066800000000000"
  "double_of_int (- 5) = 0xC014000000000000"
  "double_of_int 9007199254740993 = 0x4340000000000000"
  "double_of_int 9007199254740995 = 0x4340000000000002"
  by (simp_all add: double_defs Let_def)

text \<open>The emission levels of the fleet of \<^verbatim>\<open>main\<close>: 200, 0 and 150.\<close>

lemma emission_gas_2000:
  "getEmissionLevel (GasVehicle a e (double_of_int 2000) GasEmissionStrategy) = double_of_int 200"
  by (simp add: double_defs Let_def)

lemma emission_gas_1500:
  "getEmissionLevel (GasVehicle a e (double_of_int 1500) GasEmissionStrategy) = double_of_int 150"
  by (simp add: double_defs Let_def)

lemma emission_electric:
  "getEmissionLevel (ElectricVehicle a e batteryCapacity ElectricEmissionStrategy) = double_of_int 0"
  by simp

lemma compare_200: "dle (double_of_int 0) (double_of_int 200) \<and> \<not> dle (double_of_int 200) main_legalLimit"
  by (simp add: main_legalLimit_def double_defs Let_def)

lemma compare_200_limit: "dlt main_legalLimit (double_of_int 200)"
  by (simp add: main_legalLimit_def double_defs Let_def)

lemma compare_150: "dle (double_of_int 0) (double_of_int 150) \<and> dle (double_of_int 150) main_legalLimit"
  by (simp add: main_legalLimit_def double_defs Let_def)

lemma compare_0: "dle (double_of_int 0) (double_of_int 0) \<and> dle (double_of_int 0) main_legalLimit"
  by (simp add: main_legalLimit_def double_defs Let_def)

subsection \<open>Comparisons\<close>

lemma dle_not_dlt: "dle a b \<Longrightarrow> \<not> dlt b a"
  by (simp add: dle_def dlt_def)

lemma dlt_not_dle: "dlt a b \<Longrightarrow> \<not> dle b a"
  by (simp add: dle_def dlt_def)

lemma dle_refl: "dle a b \<Longrightarrow> dle b b"
  by (simp add: dle_def)

subsection \<open>The state machine\<close>

declare performTest.simps [simp del] PendingState_handleTest.simps [simp del]

lemma performTest_InProgress:
  "state test = InProgressState \<Longrightarrow>
   performTest test vehicle legalLimit = InProgressState_handleTest test vehicle legalLimit"
  by (simp add: performTest.simps [of test])

lemma performTest_Pending:
  "state test = PendingState \<Longrightarrow>
   performTest test vehicle legalLimit =
     prepend_output
       (put cout [Str ''Test for '', Str (vehicleID test),
                  Str ('' is now in progress.'' @ [CHR 0x0A])])
       (InProgressState_handleTest (test\<lparr>state := InProgressState\<rparr>) vehicle legalLimit)"
  by (simp add: performTest.simps [of test] PendingState_handleTest.simps
      performTest_InProgress setState_def getVehicleID_def)

lemma performTest_Completed:
  "state test = CompletedState \<Longrightarrow>
   performTest test vehicle legalLimit = CompletedState_handleTest test vehicle legalLimit"
  by (simp add: performTest.simps [of test])

lemma InProgress_ok:
  "\<not> dlt (getEmissionLevel vehicle) (double_of_int 0) \<Longrightarrow>
   InProgressState_handleTest test vehicle legalLimit =
     (None,
      test\<lparr>complianceStatus := dle (getEmissionLevel vehicle) legalLimit, state := CompletedState\<rparr>,
      put cout [Str ''Vehicle ID: '', Str (vehicleID test),
                Str '' | Emission Level: '', Dbl (getEmissionLevel vehicle),
                Str '' | Compliance: '',
                Str (if dle (getEmissionLevel vehicle) legalLimit then ''Pass'' else ''Fail''),
                Endl])"
  by (simp add: InProgressState_handleTest_def Let_def setComplianceStatus_def setState_def
      getVehicleID_def)

lemma InProgress_throws:
  "dlt (getEmissionLevel vehicle) (double_of_int 0) \<Longrightarrow>
   InProgressState_handleTest test vehicle legalLimit =
     (Some (invalid_argument ''Invalid emission level.''), test, [])"
  by (simp add: InProgressState_handleTest_def)

text \<open>
  C1: when the emission level of the vehicle is non-negative, \<^verbatim>\<open>performTest\<close> on a
  fresh test record returns without an exception, the record is in the Completed state
  and its verdict is \<open>emissionLevel \<le> legalLimit\<close>: true when the level is at most the
  limit, in particular when the two are equal, and false when the level is greater
  than the limit.
\<close>

theorem performTest_fresh_verdict:
  assumes "dle (double_of_int 0) (getEmissionLevel vehicle)"
  shows "performTest (new_EmissionTest vid PendingState) vehicle legalLimit =
           (None,
            \<lparr>vehicleID = vid, state = CompletedState,
             complianceStatus = dle (getEmissionLevel vehicle) legalLimit\<rparr>,
            put cout [Str ''Test for '', Str vid, Str ('' is now in progress.'' @ [CHR 0x0A])]
            @ put cout [Str ''Vehicle ID: '', Str vid,
                Str '' | Emission Level: '', Dbl (getEmissionLevel vehicle),
                Str '' | Compliance: '',
                Str (if dle (getEmissionLevel vehicle) legalLimit then ''Pass'' else ''Fail''),
                Endl])
         \<and> (legalLimit = getEmissionLevel vehicle \<longrightarrow>
              dle (getEmissionLevel vehicle) legalLimit)
         \<and> (dlt legalLimit (getEmissionLevel vehicle) \<longrightarrow>
              \<not> dle (getEmissionLevel vehicle) legalLimit)"
proof -
  from assms have "\<not> dlt (getEmissionLevel vehicle) (double_of_int 0)"
    by (rule dle_not_dlt)
  moreover from assms have "dle (getEmissionLevel vehicle) (getEmissionLevel vehicle)"
    by (rule dle_refl)
  ultimately show ?thesis
    by (simp add: performTest_Pending new_EmissionTest_def InProgress_ok prepend_output_def
        dlt_not_dle)
qed

theorem performTest_fresh_verdict_witness:
  "dle (double_of_int 0)
     (getEmissionLevel (GasVehicle 10 ''BS4'' (double_of_int 1500) GasEmissionStrategy))
   \<and> fst (snd (performTest (new_EmissionTest ''Vehicle_3'' PendingState)
         (GasVehicle 10 ''BS4'' (double_of_int 1500) GasEmissionStrategy) main_legalLimit)) =
       \<lparr>vehicleID = ''Vehicle_3'', state = CompletedState, complianceStatus = True\<rparr>
   \<and> double_of_int 150 =
       getEmissionLevel (GasVehicle 10 ''BS4'' (double_of_int 1500) GasEmissionStrategy)
   \<and> fst (snd (performTest (new_EmissionTest ''Vehicle_3'' PendingState)
         (GasVehicle 10 ''BS4'' (double_of_int 1500) GasEmissionStrategy) (double_of_int 150))) =
       \<lparr>vehicleID = ''Vehicle_3'', state = CompletedState, complianceStatus = True\<rparr>
   \<and> dle (double_of_int 0)
       (getEmissionLevel (GasVehicle 5 ''BS6'' (double_of_int 2000) GasEmissionStrategy))
   \<and> dlt main_legalLimit
       (getEmissionLevel (GasVehicle 5 ''BS6'' (double_of_int 2000) GasEmissionStrategy))
   \<and> fst (snd (performTest (new_EmissionTest ''Vehicle_1'' PendingState)
         (GasVehicle 5 ''BS6'' (double_of_int 2000) GasEmissionStrategy) main_legalLimit)) =
       \<lparr>vehicleID = ''Vehicle_1'', state = CompletedState, complianceStatus = False\<rparr>"
proof -
  let ?v3 = "GasVehicle 10 ''BS4'' (double_of_int 1500) GasEmissionStrategy"
  let ?v1 = "GasVehicle 5 ''BS6'' (double_of_int 2000) GasEmissionStrategy"
  have h3: "dle (double_of_int 0) (getEmissionLevel ?v3)"
    by (simp only: emission_gas_1500 compare_150)
  have p3: "dle (getEmissionLevel ?v3) main_legalLimit"
    by (simp only: emission_gas_1500 compare_150)
  have e3: "double_of_int 150 = getEmissionLevel ?v3"
    by (simp only: emission_gas_1500)
  have h1: "dle (double_of_int 0) (getEmissionLevel ?v1)"
    by (simp only: emission_gas_2000 compare_200)
  have g1: "dlt main_legalLimit (getEmissionLevel ?v1)"
    by (simp only: emission_gas_2000 compare_200_limit)
  from h3 p3 e3 h1 g1
    performTest_fresh_verdict [OF h3, of "''Vehicle_3''" main_legalLimit]
    performTest_fresh_verdict [OF h3, of "''Vehicle_3''" "double_of_int 150"]
    performTest_fresh_verdict [OF h1, of "''Vehicle_1''" main_legalLimit]
  show ?thesis by simp
qed

lemma dlt_gas_minus_50:
  "dlt (getEmissionLevel (GasVehicle a e (double_of_int (- 50)) GasEmissionStrategy)) (double_of_int 0)"
  by (simp add: double_defs Let_def)

text \<open>
  C2: when the emission level of the vehicle is negative, the step from InProgress to
  Completed throws \<^verbatim>\<open>std::invalid_argument\<close> ("Invalid emission level.") and the
  exception leaves \<^verbatim>\<open>performTest\<close>. A fresh record is left in the InProgress state
  with its verdict still false; a record already in InProgress is left as it was, and a
  record in Pending differs from before only in its state, now InProgress.
\<close>

theorem performTest_negative_throws:
  assumes "dlt (getEmissionLevel vehicle) (double_of_int 0)"
  shows "performTest (new_EmissionTest vid PendingState) vehicle legalLimit =
           (Some (invalid_argument ''Invalid emission level.''),
            \<lparr>vehicleID = vid, state = InProgressState, complianceStatus = False\<rparr>,
            put cout [Str ''Test for '', Str vid, Str ('' is now in progress.'' @ [CHR 0x0A])])
         \<and> (\<forall>test. state test = InProgressState \<longrightarrow>
               performTest test vehicle legalLimit =
                 (Some (invalid_argument ''Invalid emission level.''), test, []))
         \<and> (\<forall>test. state test = PendingState \<longrightarrow>
               fst (performTest test vehicle legalLimit) =
                 Some (invalid_argument ''Invalid emission level.'')
               \<and> fst (snd (performTest test vehicle legalLimit)) = test\<lparr>state := InProgressState\<rparr>)"
  using assms
  by (simp add: performTest_Pending performTest_InProgress new_EmissionTest_def
      InProgress_throws prepend_output_def put_def)

theorem performTest_negative_throws_witness:
  "dlt (getEmissionLevel (GasVehicle 5 ''BS6'' (double_of_int (- 50)) GasEmissionStrategy))
       (double_of_int 0)
   \<and> performTest (new_EmissionTest ''Vehicle_1'' PendingState)
        (GasVehicle 5 ''BS6'' (double_of_int (- 50)) GasEmissionStrategy) main_legalLimit =
       (Some (invalid_argument ''Invalid emission level.''),
        \<lparr>vehicleID = ''Vehicle_1'', state = InProgressState, complianceStatus = False\<rparr>,
        put cout [Str ''Test for '', Str ''Vehicle_1'', Str ('' is now in progress.'' @ [CHR 0x0A])])
   \<and> performTest \<lparr>vehicleID = ''Vehicle_1'', state = InProgressState, complianceStatus = False\<rparr>
        (GasVehicle 5 ''BS6'' (double_of_int (- 50)) GasEmissionStrategy) main_legalLimit =
       (Some (invalid_argument ''Invalid emission level.''),
        \<lparr>vehicleID = ''Vehicle_1'', state = InProgressState, complianceStatus = False\<rparr>, [])"
proof -
  let ?v = "GasVehicle 5 ''BS6'' (double_of_int (- 50)) GasEmissionStrategy"
  have h: "dlt (getEmissionLevel ?v) (double_of_int 0)"
    by (rule dlt_gas_minus_50)
  from h performTest_negative_throws [OF h, of "''Vehicle_1''" main_legalLimit]
  show ?thesis by simp
qed

text \<open>
  C4: on a record in the Completed state, \<^verbatim>\<open>performTest\<close> with any vehicle and any legal
  limit returns the record as it was and writes only the line "already completed". The
  result does not depend on the vehicle or the limit (a vehicle with a negative emission
  level does not make the call throw), and a further call leaves the record unchanged
  again.
\<close>

theorem performTest_completed_noop:
  assumes "state test = CompletedState"
  shows "performTest test vehicle legalLimit =
           (None, test,
            put cout [Str ''Test for '', Str (vehicleID test),
                      Str ('' is already completed.'' @ [CHR 0x0A])])
         \<and> fst (snd (performTest (fst (snd (performTest test vehicle legalLimit))) vehicle' legalLimit')) = test"
  using assms
  by (simp add: performTest_Completed CompletedState_handleTest_def getVehicleID_def)

theorem performTest_completed_noop_witness:
  "state \<lparr>vehicleID = ''Vehicle_1'', state = CompletedState, complianceStatus = True\<rparr> = CompletedState
   \<and> performTest \<lparr>vehicleID = ''Vehicle_1'', state = CompletedState, complianceStatus = True\<rparr>
        (GasVehicle 5 ''BS6'' (double_of_int (- 50)) GasEmissionStrategy) main_legalLimit =
       (None, \<lparr>vehicleID = ''Vehicle_1'', state = CompletedState, complianceStatus = True\<rparr>,
        put cout [Str ''Test for '', Str ''Vehicle_1'', Str ('' is already completed.'' @ [CHR 0x0A])])"
  using performTest_completed_noop
    [of "\<lparr>vehicleID = ''Vehicle_1'', state = CompletedState, complianceStatus = True\<rparr>"
        "GasVehicle 5 ''BS6'' (double_of_int (- 50)) GasEmissionStrategy" main_legalLimit]
  by simp

lemma performTest_verdict_invariant:
  assumes "state test \<noteq> CompletedState \<longrightarrow> \<not> complianceStatus test"
    and "performTest test vehicle legalLimit = (thrown, test', out)"
  shows "state test' \<noteq> CompletedState \<longrightarrow> \<not> complianceStatus test'"
proof (cases "state test")
  case PendingState
  with assms show ?thesis
    by (cases "dlt (getEmissionLevel vehicle) (double_of_int 0)")
       (auto simp: performTest_Pending InProgress_throws InProgress_ok prepend_output_def)
next
  case InProgressState
  with assms show ?thesis
    by (cases "dlt (getEmissionLevel vehicle) (double_of_int 0)")
       (auto simp: performTest_InProgress InProgress_throws InProgress_ok)
next
  case CompletedState
  with assms show ?thesis
    by (auto simp: performTest_Completed CompletedState_handleTest_def)
qed

lemma reachable_verdict_invariant:
  "reachable test \<Longrightarrow> state test \<noteq> CompletedState \<longrightarrow> \<not> complianceStatus test"
proof (induction rule: reachable.induct)
  case (constructed vid initialState)
  show ?case by (simp add: new_EmissionTest_def)
next
  case (started test)
  then show ?case by (simp add: setState_def)
next
  case (performed test vehicle legalLimit thrown test' out)
  then show ?case using performTest_verdict_invariant by blast
qed

text \<open>
  C9: \<^verbatim>\<open>getComplianceStatus\<close> is false on every reachable record that is not in the
  Completed state. It is false after construction; a test that threw leaves its record in
  InProgress with the verdict false; and a test that completed with an emission level
  above the limit has the verdict false too, so the accessor alone does not tell the two
  apart.
\<close>

theorem verdict_false_before_completed:
  "(reachable test \<and> state test \<noteq> CompletedState \<longrightarrow> getComplianceStatus test = False)
   \<and> getComplianceStatus (new_EmissionTest vid initialState) = False
   \<and> (fst (performTest (new_EmissionTest vid PendingState) vehicle legalLimit) \<noteq> None \<longrightarrow>
        state (fst (snd (performTest (new_EmissionTest vid PendingState) vehicle legalLimit)))
          = InProgressState
        \<and> getComplianceStatus
            (fst (snd (performTest (new_EmissionTest vid PendingState) vehicle legalLimit))) = False)
   \<and> (dle (double_of_int 0) (getEmissionLevel vehicle') \<and> dlt legalLimit (getEmissionLevel vehicle') \<longrightarrow>
        state (fst (snd (performTest (new_EmissionTest vid PendingState) vehicle' legalLimit)))
          = CompletedState
        \<and> getComplianceStatus
            (fst (snd (performTest (new_EmissionTest vid PendingState) vehicle' legalLimit))) = False)"
proof (intro conjI impI)
  assume "reachable test \<and> state test \<noteq> CompletedState"
  then show "getComplianceStatus test = False"
    using reachable_verdict_invariant [of test] by (simp add: getComplianceStatus_def)
next
  show "getComplianceStatus (new_EmissionTest vid initialState) = False"
    by (simp add: getComplianceStatus_def new_EmissionTest_def)
next
  let ?r = "performTest (new_EmissionTest vid PendingState) vehicle legalLimit"
  assume failed: "fst ?r \<noteq> None"
  have neg: "dlt (getEmissionLevel vehicle) (double_of_int 0)"
  proof (rule ccontr)
    assume "\<not> dlt (getEmissionLevel vehicle) (double_of_int 0)"
    then have "fst ?r = None"
      by (simp add: performTest_Pending new_EmissionTest_def InProgress_ok prepend_output_def)
    with failed show False by simp
  qed
  then show "state (fst (snd ?r)) = InProgressState"
    by (simp add: performTest_Pending new_EmissionTest_def InProgress_throws prepend_output_def)
  from neg show "getComplianceStatus (fst (snd ?r)) = False"
    by (simp add: performTest_Pending new_EmissionTest_def InProgress_throws prepend_output_def
        getComplianceStatus_def)
next
  let ?r = "performTest (new_EmissionTest vid PendingState) vehicle' legalLimit"
  assume h: "dle (double_of_int 0) (getEmissionLevel vehicle') \<and> dlt legalLimit (getEmissionLevel vehicle')"
  then have ok: "\<not> dlt (getEmissionLevel vehicle') (double_of_int 0)"
    and fail: "\<not> dle (getEmissionLevel vehicle') legalLimit"
    by (simp_all add: dle_not_dlt dlt_not_dle)
  from ok show "state (fst (snd ?r)) = CompletedState"
    by (simp add: performTest_Pending new_EmissionTest_def InProgress_ok prepend_output_def)
  from ok fail show "getComplianceStatus (fst (snd ?r)) = False"
    by (simp add: performTest_Pending new_EmissionTest_def InProgress_ok prepend_output_def
        getComplianceStatus_def)
qed

theorem verdict_false_before_completed_witness:
  "reachable \<lparr>vehicleID = ''Vehicle_1'', state = InProgressState, complianceStatus = False\<rparr>
   \<and> getComplianceStatus
       \<lparr>vehicleID = ''Vehicle_1'', state = InProgressState, complianceStatus = False\<rparr> = False
   \<and> fst (performTest (new_EmissionTest ''Vehicle_1'' PendingState)
        (GasVehicle 5 ''BS6'' (double_of_int (- 50)) GasEmissionStrategy) main_legalLimit) \<noteq> None
   \<and> getComplianceStatus (fst (snd (performTest (new_EmissionTest ''Vehicle_1'' PendingState)
        (GasVehicle 5 ''BS6'' (double_of_int (- 50)) GasEmissionStrategy) main_legalLimit))) = False
   \<and> dle (double_of_int 0)
        (getEmissionLevel (GasVehicle 5 ''BS6'' (double_of_int 2000) GasEmissionStrategy))
   \<and> dlt main_legalLimit
        (getEmissionLevel (GasVehicle 5 ''BS6'' (double_of_int 2000) GasEmissionStrategy))
   \<and> state (fst (snd (performTest (new_EmissionTest ''Vehicle_1'' PendingState)
        (GasVehicle 5 ''BS6'' (double_of_int 2000) GasEmissionStrategy) main_legalLimit)))
       = CompletedState
   \<and> getComplianceStatus (fst (snd (performTest (new_EmissionTest ''Vehicle_1'' PendingState)
        (GasVehicle 5 ''BS6'' (double_of_int 2000) GasEmissionStrategy) main_legalLimit))) = False"
proof -
  let ?t = "\<lparr>vehicleID = ''Vehicle_1'', state = InProgressState, complianceStatus = False\<rparr>"
  let ?bad = "GasVehicle 5 ''BS6'' (double_of_int (- 50)) GasEmissionStrategy"
  let ?v = "GasVehicle 5 ''BS6'' (double_of_int 2000) GasEmissionStrategy"
  have "reachable (setState (new_EmissionTest ''Vehicle_1'' PendingState) InProgressState)"
    by (rule started [OF constructed]) (simp add: new_EmissionTest_def)
  then have r: "reachable ?t"
    by (simp add: setState_def new_EmissionTest_def)
  have f: "fst (performTest (new_EmissionTest ''Vehicle_1'' PendingState) ?bad main_legalLimit) \<noteq> None"
    using dlt_gas_minus_50 [of 5 "''BS6''"]
    by (simp add: performTest_Pending new_EmissionTest_def InProgress_throws prepend_output_def)
  have e: "dle (double_of_int 0) (getEmissionLevel ?v)"
    by (simp only: emission_gas_2000 compare_200)
  have g: "dlt main_legalLimit (getEmissionLevel ?v)"
    by (simp only: emission_gas_2000 compare_200_limit)
  from r f e g
    verdict_false_before_completed [of ?t "''Vehicle_1''" PendingState ?bad main_legalLimit ?v]
  show ?thesis by simp
qed

subsection \<open>The fields of a packed double and the sign of a product\<close>

lemma field_sum_bound:
  fixes E F :: nat
  assumes "E < 2048" and "F < 2 ^ 52"
  shows "E * 2 ^ 52 + F < 2 ^ 63"
  using assms by simp

lemma split_fields:
  fixes K F B :: nat
  assumes "F < B"
  shows "(K * B + F) div B = K" and "(K * B + F) mod B = F"
  using assms by simp_all

lemma pack_unat:
  "unat (pack s e f) = ((if s then 2048 else 0) + e mod 2048) * 2 ^ 52 + f mod 2 ^ 52"
proof -
  let ?n = "(if s then 2 ^ 63 else 0) + (e mod 2048) * 2 ^ 52 + f mod 2 ^ 52"
  have "(e mod 2048) * 2 ^ 52 + f mod 2 ^ 52 < (2::nat) ^ 63"
    by (rule field_sum_bound) simp_all
  then have "?n < (2::nat) ^ 64"
    by (simp split: if_splits)
  then have "?n mod 2 ^ LENGTH(64) = ?n"
    by simp
  then have "unat (pack s e f) = ?n"
    unfolding pack_def unat_of_nat .
  then show ?thesis
    by (simp add: algebra_simps)
qed

lemma sign_bit_pack: "sign_bit (pack s e f) = s"
proof -
  have "(e mod 2048) * 2 ^ 52 + f mod 2 ^ 52 < (2::nat) ^ 63"
    by (rule field_sum_bound) simp_all
  then show ?thesis
    unfolding sign_bit_def pack_unat by (cases s) (simp_all add: algebra_simps)
qed

lemma exponent_pack: "exponent (pack s e f) = e mod 2048"
proof -
  have "f mod 2 ^ 52 < (2::nat) ^ 52"
    by simp
  then have "unat (pack s e f) div 2 ^ 52 = (if s then 2048 else 0) + e mod 2048"
    unfolding pack_unat by (rule split_fields)
  then show ?thesis
    by (simp add: exponent_def)
qed

lemma fraction_pack: "fraction (pack s e f) = f mod 2 ^ 52"
proof -
  have "f mod 2 ^ 52 < (2::nat) ^ 52"
    by simp
  then have "unat (pack s e f) mod 2 ^ 52 = f mod 2 ^ 52"
    unfolding pack_unat by (rule split_fields)
  then show ?thesis
    by (simp add: fraction_def)
qed

lemma isnan_pack: "isnan (pack s e f) \<longleftrightarrow> e mod 2048 = 2047 \<and> f mod 2 ^ 52 \<noteq> 0"
  by (simp add: isnan_def exponent_pack fraction_pack)

lemma round_pack_cases:
  obtains "round_pack s M e = pack s 2047 0"
  | m where "round_pack s M e = pack s 0 m"
  | q m where "q \<le> 971" and "round_pack s M e = pack s (nat (q + 1075)) m"
proof -
  define q where "q = max (e + int (bitlen M) - 53) (- 1074)"
  define m where "m = (if q \<le> e then M * 2 ^ nat (e - q)
               else let sh = nat (q - e);
                        t = M div 2 ^ sh;
                        r = M mod 2 ^ sh;
                        h = 2 ^ (sh - 1)
                    in if h < r \<or> (r = h \<and> odd t) then t + 1 else t)"
  define q' where "q' = (if m = 2 ^ 53 then q + 1 else q)"
  define m' where "m' = (if m = 2 ^ 53 then 2 ^ 52 else m)"
  have rp: "round_pack s M e =
      (if 971 < q' then pack s 2047 0
       else if m' < 2 ^ 52 then pack s 0 m'
       else pack s (nat (q' + 1075)) (m' - 2 ^ 52))"
    unfolding round_pack_def q_def [symmetric] Let_def [of q]
      m_def [symmetric] Let_def [of m] q'_def [symmetric] Let_def [of q']
      m'_def [symmetric] Let_def [of m'] ..
  show thesis
  proof (cases "971 < q'")
    case True
    with rp that(1) show thesis by simp
  next
    case False
    show thesis
    proof (cases "m' < 2 ^ 52")
      case True
      with False rp that(2) show thesis by simp
    next
      case nsub: False
      from False have "q' \<le> 971" by simp
      moreover from False nsub rp
      have "round_pack s M e = pack s (nat (q' + 1075)) (m' - 2 ^ 52)" by simp
      ultimately show thesis by (rule that(3))
    qed
  qed
qed

lemma round_pack_not_nan: "\<not> isnan (round_pack s M e)"
proof (cases rule: round_pack_cases [of s M e])
  case 1
  then show ?thesis by (simp add: isnan_pack)
next
  case (2 m)
  then show ?thesis by (simp add: isnan_pack)
next
  case (3 q m)
  from \<open>q \<le> 971\<close> have "nat (q + 1075) < 2047" by simp
  then have "nat (q + 1075) mod 2048 \<noteq> 2047" by simp
  with 3 show ?thesis by (simp add: isnan_pack)
qed

lemma sign_bit_round_pack: "sign_bit (round_pack s M e) = s"
  by (cases rule: round_pack_cases [of s M e]) (simp_all add: sign_bit_pack)

lemma scaled_nonneg_iff: "0 \<le> scaled d \<longleftrightarrow> (sign_bit d \<longrightarrow> significand d = 0)"
proof -
  define k where "k = max (exponent d) 1 - 1"
  have "0 < significand d * 2 ^ k \<longleftrightarrow> 0 < significand d"
    by simp
  then have "int (significand d * 2 ^ k) \<le> 0 \<longleftrightarrow> significand d = 0"
    by (metis of_nat_le_0_iff not_gr_zero le_zero_eq)
  then show ?thesis
    unfolding scaled_def Let_def k_def [symmetric] by (cases "sign_bit d") simp_all
qed

lemma zero_fields: "\<not> isnan 0" "scaled 0 = 0"
  by (simp_all add: double_defs)

lemma dle_zero_iff:
  "dle (double_of_int 0) d \<longleftrightarrow> \<not> isnan d \<and> (sign_bit d \<longrightarrow> significand d = 0)"
  by (simp add: double_of_int_0 dle_def zero_fields scaled_nonneg_iff)

lemma dlt_zero_iff:
  "dlt d (double_of_int 0) \<longleftrightarrow> \<not> isnan d \<and> sign_bit d \<and> significand d \<noteq> 0"
proof -
  have "scaled d < 0 \<longleftrightarrow> \<not> 0 \<le> scaled d" by auto
  then show ?thesis
    by (auto simp add: double_of_int_0 dlt_def zero_fields scaled_nonneg_iff)
qed

lemma literal_0_1_fields:
  "\<not> sign_bit literal_0_1" "\<not> isnan literal_0_1" "\<not> isinf literal_0_1"
  "significand literal_0_1 \<noteq> 0"
  by (simp_all add: double_defs)

lemma dmul_literal_0_1_nonneg:
  assumes "dle (double_of_int 0) p"
  shows "dle (double_of_int 0) (dmul p literal_0_1)"
proof -
  from assms have nan: "\<not> isnan p" and sg: "sign_bit p \<longrightarrow> significand p = 0"
    by (simp_all add: dle_zero_iff)
  show ?thesis
  proof (cases "isinf p")
    case True
    then have "significand p \<noteq> 0"
      by (simp add: isinf_def significand_def)
    with sg have "\<not> sign_bit p" by blast
    with True nan \<open>significand p \<noteq> 0\<close> show ?thesis
      by (simp add: dmul_def literal_0_1_fields dle_zero_iff isnan_pack sign_bit_pack)
  next
    case False
    show ?thesis
    proof (cases "significand p = 0")
      case True
      with False nan show ?thesis
        by (simp add: dmul_def literal_0_1_fields dle_zero_iff isnan_pack significand_def
            exponent_pack fraction_pack)
    next
      case nz: False
      with sg have "\<not> sign_bit p" by blast
      with False nan nz show ?thesis
        by (simp add: dmul_def literal_0_1_fields dle_zero_iff round_pack_not_nan
            sign_bit_round_pack)
    qed
  qed
qed

subsection \<open>The registry after runTest and after the calls made in order\<close>

lemma runTest_throws:
  "dlt (getEmissionLevel vehicle) (double_of_int 0) \<Longrightarrow>
   fst (runTest vehicle vid legalLimit testResults) = testResults"
  by (simp add: runTest_def performTest_Pending new_EmissionTest_def
      InProgress_throws prepend_output_def)

lemma runTest_completes:
  "\<not> dlt (getEmissionLevel vehicle) (double_of_int 0) \<Longrightarrow>
   fst (runTest vehicle vid legalLimit testResults) =
     testResults(vid \<mapsto> dle (getEmissionLevel vehicle) legalLimit)"
  by (simp add: runTest_def performTest_Pending new_EmissionTest_def InProgress_ok
      prepend_output_def getComplianceStatus_def)

lemma performTest_fresh_thrown:
  "fst (performTest (new_EmissionTest vid PendingState) vehicle legalLimit) \<noteq> None
   \<longleftrightarrow> dlt (getEmissionLevel vehicle) (double_of_int 0)"
  by (cases "dlt (getEmissionLevel vehicle) (double_of_int 0)")
     (simp_all add: performTest_Pending new_EmissionTest_def InProgress_ok
      InProgress_throws prepend_output_def)

lemma runTest_dom:
  "dom (fst (runTest vehicle vid legalLimit testResults)) =
     (if dlt (getEmissionLevel vehicle) (double_of_int 0) then dom testResults
      else insert vid (dom testResults))"
  by (simp add: runTest_throws runTest_completes)

lemma run_in_order_dom:
  "dom (run_in_order calls legalLimit testResults) =
     dom testResults \<union>
     set (map snd (filter (\<lambda>c. \<not> dlt (getEmissionLevel (fst c)) (double_of_int 0)) calls))"
proof (induction calls arbitrary: testResults)
  case Nil
  show ?case by simp
next
  case (Cons c calls)
  obtain vehicle vid where c: "c = (vehicle, vid)" by (cases c)
  have "dom (run_in_order (c # calls) legalLimit testResults) =
      dom (fst (runTest vehicle vid legalLimit testResults)) \<union>
      set (map snd (filter (\<lambda>c. \<not> dlt (getEmissionLevel (fst c)) (double_of_int 0)) calls))"
    unfolding c run_in_order.simps by (rule Cons.IH)
  then show ?case
    by (simp add: c runTest_dom)
qed

lemma run_in_order_other:
  "vid \<notin> snd ` set calls \<Longrightarrow> run_in_order calls legalLimit testResults vid = testResults vid"
proof (induction calls arbitrary: testResults)
  case Nil
  show ?case by simp
next
  case (Cons c calls)
  obtain vehicle vid' where c: "c = (vehicle, vid')" by (cases c)
  from Cons.prems have "vid \<noteq> vid'" and "vid \<notin> snd ` set calls"
    by (simp_all add: c)
  then show ?case
    by (cases "dlt (getEmissionLevel vehicle) (double_of_int 0)")
       (simp_all add: c Cons.IH runTest_throws runTest_completes)
qed

lemma run_in_order_lookup:
  assumes "distinct (map snd calls)" and "(vehicle, vid) \<in> set calls"
  shows "run_in_order calls legalLimit testResults vid =
     (if dlt (getEmissionLevel vehicle) (double_of_int 0) then testResults vid
      else Some (dle (getEmissionLevel vehicle) legalLimit))"
  using assms
proof (induction calls arbitrary: testResults)
  case Nil
  then show ?case by simp
next
  case (Cons c calls)
  obtain vehicle' vid' where c: "c = (vehicle', vid')" by (cases c)
  from Cons.prems(1) have d: "distinct (map snd calls)" and notin: "vid' \<notin> snd ` set calls"
    by (simp_all add: c)
  show ?case
  proof (cases "(vehicle, vid) = (vehicle', vid')")
    case True
    with notin have "vid \<notin> snd ` set calls" by simp
    with True show ?thesis
      by (cases "dlt (getEmissionLevel vehicle) (double_of_int 0)")
         (simp_all add: c run_in_order_other runTest_throws runTest_completes)
  next
    case False
    with Cons.prems(2) have mem: "(vehicle, vid) \<in> set calls"
      by (auto simp add: c)
    then have "vid \<in> snd ` set calls" by force
    with notin have "vid \<noteq> vid'" by auto
    with Cons.IH [OF d mem] show ?thesis
      by (cases "dlt (getEmissionLevel vehicle') (double_of_int 0)")
         (simp_all add: c runTest_throws runTest_completes)
  qed
qed

subsection \<open>Identifiers\<close>

lemma digit_value_digit_char: "d < 10 \<Longrightarrow> digit_value (digit_char d) = d"
proof -
  assume "d < 10"
  then have "d \<in> set [0..<10]"
    by simp
  also have "[0..<10] = [0, 1, 2, 3, 4, 5, 6, 7, 8, 9::nat]"
    by (simp add: upt_rec)
  finally have "d \<in> set [0, 1, 2, 3, 4, 5, 6, 7, 8, 9]" .
  then show ?thesis
    by (auto simp add: digit_value_def digit_char_def)
qed

lemma decimal_value_snoc: "decimal_value (ds @ [c]) = 10 * decimal_value ds + digit_value c"
  by (simp add: decimal_value_def)

lemma decimal_value_digits_of: "decimal_value (digits_of n) = n"
proof (induction n rule: digits_of.induct)
  case (1 n)
  show ?case
  proof (cases "n < 10")
    case True
    then show ?thesis
      by (simp add: digits_of.simps [of n] decimal_value_def digit_value_digit_char)
  next
    case False
    with "1.IH" show ?thesis
      by (simp add: digits_of.simps [of n] decimal_value_snoc digit_value_digit_char)
  qed
qed

lemma to_string_nonneg: "0 \<le> i \<Longrightarrow> decimal_value (to_string i) = nat i"
  by (simp add: to_string_def decimal_value_digits_of)

lemma to_string_inj: "0 \<le> i \<Longrightarrow> 0 \<le> j \<Longrightarrow> to_string i = to_string j \<Longrightarrow> i = j"
  by (metis to_string_nonneg nat_eq_iff2 int_nat_eq)

text \<open>
  The string that \<open>to_string\<close> gives for a positive number is its decimal numeral:
  digits only, no leading zero, and the digits have the number as their value.
\<close>

lemma digit_char_isdigit: "d < 10 \<Longrightarrow> isdigit (digit_char d)"
proof -
  assume "d < 10"
  then have "d < length ''0123456789''"
    by simp
  then have "''0123456789'' ! d \<in> set ''0123456789''"
    by (rule nth_mem)
  then show ?thesis
    by (simp only: isdigit_def digit_char_def)
qed

lemma digits_of_isdigit: "list_all isdigit (digits_of n)"
proof (induction n rule: digits_of.induct)
  case (1 n)
  show ?case
  proof (cases "n < 10")
    case True
    then show ?thesis
      by (simp add: digits_of.simps [of n] digit_char_isdigit)
  next
    case False
    with "1.IH" show ?thesis
      by (simp add: digits_of.simps [of n] digit_char_isdigit)
  qed
qed

lemma digits_of_nonempty: "digits_of n \<noteq> []"
  by (simp add: digits_of.simps [of n])

lemma digit_char_nonzero: "0 < d \<Longrightarrow> d < 10 \<Longrightarrow> digit_char d \<noteq> CHR ''0''"
proof -
  assume "0 < d" and "d < 10"
  then have "digit_value (digit_char d) \<noteq> digit_value (CHR ''0'')"
    by (simp add: digit_value_digit_char) (simp add: digit_value_def)
  then show ?thesis by auto
qed

lemma digits_of_leading: "0 < n \<Longrightarrow> hd (digits_of n) \<noteq> CHR ''0''"
proof (induction n rule: digits_of.induct)
  case (1 n)
  show ?case
  proof (cases "n < 10")
    case True
    with "1.prems" show ?thesis
      by (simp add: digits_of.simps [of n] digit_char_nonzero)
  next
    case False
    then have "0 < n div 10" by simp
    with False "1.IH" have "hd (digits_of (n div 10)) \<noteq> CHR ''0''"
      by simp
    with False show ?thesis
      by (simp add: digits_of.simps [of n] hd_append digits_of_nonempty)
  qed
qed

lemma to_string_decimal:
  "0 < i \<Longrightarrow> list_all isdigit (to_string i) \<and> hd (to_string i) \<noteq> CHR ''0''
     \<and> decimal_value (to_string i) = nat i"
  by (simp add: to_string_def digits_of_isdigit digits_of_leading decimal_value_digits_of)

lemma spawn_length: "length (spawn vehicles n) = length vehicles"
  by (induction vehicles arbitrary: n) simp_all

lemma spawn_nth:
  "i < length vehicles \<Longrightarrow>
   spawn vehicles n ! i = (vehicles ! i, ''Vehicle_'' @ to_string (n + int i))"
proof (induction vehicles arbitrary: n i)
  case Nil
  then show ?case by simp
next
  case (Cons v vehicles)
  show ?case
  proof (cases i)
    case 0
    then show ?thesis by simp
  next
    case (Suc k)
    with Cons.prems have "k < length vehicles" by simp
    from Cons.IH [OF this, of "n + 1"] Suc show ?thesis
      by (simp add: algebra_simps)
  qed
qed

lemma spawn_ids: "map snd (spawn vehicles n) =
    map (\<lambda>k. ''Vehicle_'' @ to_string (n + int k)) [0..<length vehicles]"
  by (rule nth_equalityI) (simp_all add: spawn_length spawn_nth)

lemma spawn_vehicles: "map fst (spawn vehicles n) = vehicles"
  by (rule nth_equalityI) (simp_all add: spawn_length spawn_nth)

lemma spawn_distinct: "0 \<le> n \<Longrightarrow> distinct (map snd (spawn vehicles n))"
proof -
  assume n: "0 \<le> n"
  have "inj_on (\<lambda>k. ''Vehicle_'' @ to_string (n + int k)) (set [0..<length vehicles])"
  proof (rule inj_onI)
    fix x y
    assume "''Vehicle_'' @ to_string (n + int x) = ''Vehicle_'' @ to_string (n + int y)"
    then have "to_string (n + int x) = to_string (n + int y)" by simp
    with n have "n + int x = n + int y"
      by (intro to_string_inj) simp_all
    then show "x = y" by simp
  qed
  then show ?thesis
    by (simp add: spawn_ids distinct_map)
qed

subsection \<open>Executions of the threads\<close>

lemma thread_test_cases:
  "thread_test (vehicle, vid) legalLimit =
     (if dlt (getEmissionLevel vehicle) (double_of_int 0) then Done
      else Ready (dle (getEmissionLevel vehicle) legalLimit))"
  by (simp add: thread_test_def performTest_Pending new_EmissionTest_def InProgress_ok
      InProgress_throws prepend_output_def getComplianceStatus_def)

text \<open>The two steps of a thread together change the registry as \<^verbatim>\<open>runTest\<close> does.\<close>

lemma runTest_as_steps:
  "fst (runTest vehicle vid legalLimit testResults) =
     (case thread_test (vehicle, vid) legalLimit of
        Ready status \<Rightarrow> testResults(vid \<mapsto> status)
      | _ \<Rightarrow> testResults)"
  by (cases "dlt (getEmissionLevel vehicle) (double_of_int 0)")
     (simp_all add: thread_test_cases runTest_throws runTest_completes)


lemma thread_inv_start: "thread_inv calls legalLimit (replicate (length calls) Started, Map.empty)"
  by (simp add: thread_inv_def)

lemma distinct_ids:
  assumes "distinct (map snd calls)" and "i < length calls" and "j < length calls"
    and "snd (calls ! i) = snd (calls ! j)"
  shows "i = j"
  using nth_eq_iff_index_eq [OF assms(1), of i j] assms(2-4) by simp

lemma thread_inv_step:
  assumes d: "distinct (map snd calls)"
    and inv: "thread_inv calls legalLimit s"
    and st: "thread_step calls legalLimit s s'"
  shows "thread_inv calls legalLimit s'"
  using st
proof cases
  case (test i phases testResults)
  obtain vehicle vid where c: "calls ! i = (vehicle, vid)" by (cases "calls ! i")
  from inv test have len: "length phases = length calls"
    by (simp add: thread_inv_def)
  from inv test(1,3,4) have "testResults (snd (calls ! i)) = None"
    by (simp add: thread_inv_def)
  then have none: "testResults vid = None"
    by (simp add: c)
  show ?thesis
    unfolding thread_inv_def test(2)
  proof (intro conjI allI impI)
    show "length (fst (phases[i := thread_test (calls ! i) legalLimit], testResults)) = length calls"
      using len by simp
  next
    fix k assume "k \<notin> snd ` set calls"
    with inv test(1) show "snd (phases[i := thread_test (calls ! i) legalLimit], testResults) k = None"
      by (simp add: thread_inv_def)
  next
    fix j assume j: "j < length calls"
    assume "fst (phases[i := thread_test (calls ! i) legalLimit], testResults) ! j = Started"
    with inv test(1) j len c
    show "snd (phases[i := thread_test (calls ! i) legalLimit], testResults) (snd (calls ! j)) = None"
      by (cases "j = i") (auto simp add: thread_inv_def thread_test_cases split: if_splits)
  next
    fix j b assume j: "j < length calls"
    assume r: "fst (phases[i := thread_test (calls ! i) legalLimit], testResults) ! j = Ready b"
    show "snd (phases[i := thread_test (calls ! i) legalLimit], testResults) (snd (calls ! j)) = None"
      using inv test(1) j len c none r
      by (cases "j = i") (auto simp add: thread_inv_def thread_test_cases split: if_splits)
    show "\<not> dlt (getEmissionLevel (fst (calls ! j))) (double_of_int 0)"
      using inv test(1) j len c none r
      by (cases "j = i") (auto simp add: thread_inv_def thread_test_cases split: if_splits)
    show "b = dle (getEmissionLevel (fst (calls ! j))) legalLimit"
      using inv test(1) j len c none r
      by (cases "j = i") (auto simp add: thread_inv_def thread_test_cases split: if_splits)
  next
    fix j assume j: "j < length calls"
    assume r: "fst (phases[i := thread_test (calls ! i) legalLimit], testResults) ! j = Done"
    show "snd (phases[i := thread_test (calls ! i) legalLimit], testResults) (snd (calls ! j)) =
        (if dlt (getEmissionLevel (fst (calls ! j))) (double_of_int 0) then None
         else Some (dle (getEmissionLevel (fst (calls ! j))) legalLimit))"
      using inv test(1) j len c none r
      by (cases "j = i") (auto simp add: thread_inv_def thread_test_cases split: if_splits)
  qed
next
  case (store i phases status testResults)
  from inv store have len: "length phases = length calls"
    by (simp add: thread_inv_def)
  from inv store(1,3,4) have ok: "\<not> dlt (getEmissionLevel (fst (calls ! i))) (double_of_int 0)"
    and verdict: "status = dle (getEmissionLevel (fst (calls ! i))) legalLimit"
    by (simp_all add: thread_inv_def)
  have other: "snd (calls ! j) \<noteq> snd (calls ! i)" if "j < length calls" and "j \<noteq> i" for j
    using distinct_ids [OF d that(1) store(3)] that(2) by blast
  from store(3) have mem: "snd (calls ! i) \<in> snd ` set calls"
    by simp
  show ?thesis
    unfolding thread_inv_def store(2)
  proof (intro conjI allI impI)
    show "length (fst (phases[i := Done], testResults(snd (calls ! i) \<mapsto> status))) = length calls"
      using len by simp
  next
    fix k assume k: "k \<notin> snd ` set calls"
    with mem have "k \<noteq> snd (calls ! i)" by blast
    with inv store(1) k
    show "snd (phases[i := Done], testResults(snd (calls ! i) \<mapsto> status)) k = None"
      by (simp add: thread_inv_def)
  next
    fix j assume j: "j < length calls"
    assume r: "fst (phases[i := Done], testResults(snd (calls ! i) \<mapsto> status)) ! j = Started"
    with len store(3) have "j \<noteq> i" by auto
    with inv store(1) j r other [OF j]
    show "snd (phases[i := Done], testResults(snd (calls ! i) \<mapsto> status)) (snd (calls ! j)) = None"
      by (simp add: thread_inv_def)
  next
    fix j b assume j: "j < length calls"
    assume r: "fst (phases[i := Done], testResults(snd (calls ! i) \<mapsto> status)) ! j = Ready b"
    with len store(3) have ne: "j \<noteq> i" by auto
    show "snd (phases[i := Done], testResults(snd (calls ! i) \<mapsto> status)) (snd (calls ! j)) = None"
      using inv store(1) j r other [OF j] ne by (simp add: thread_inv_def)
    show "\<not> dlt (getEmissionLevel (fst (calls ! j))) (double_of_int 0)"
      using inv store(1) j r ne by (simp add: thread_inv_def)
    show "b = dle (getEmissionLevel (fst (calls ! j))) legalLimit"
      using inv store(1) j r ne by (simp add: thread_inv_def)
  next
    fix j assume j: "j < length calls"
    assume r: "fst (phases[i := Done], testResults(snd (calls ! i) \<mapsto> status)) ! j = Done"
    show "snd (phases[i := Done], testResults(snd (calls ! i) \<mapsto> status)) (snd (calls ! j)) =
        (if dlt (getEmissionLevel (fst (calls ! j))) (double_of_int 0) then None
         else Some (dle (getEmissionLevel (fst (calls ! j))) legalLimit))"
    proof (cases "j = i")
      case True
      with ok verdict show ?thesis by simp
    next
      case False
      with inv store(1) j r other [OF j] show ?thesis
        by (simp add: thread_inv_def)
    qed
  qed
qed

lemma execution_inv:
  assumes "distinct (map snd calls)" and "execution calls legalLimit s"
  shows "thread_inv calls legalLimit s"
  using assms(2)
proof induction
  case start
  show ?case by (rule thread_inv_start)
next
  case (step s s')
  from assms(1) step.IH step.hyps(2) show ?case by (rule thread_inv_step)
qed

text \<open>
  No update is lost: whatever the interleaving, once all threads are done the registry
  is the one that the calls of \<^verbatim>\<open>runTest\<close> give when made one after the other.
\<close>

lemma execution_result:
  assumes d: "distinct (map snd calls)"
    and ex: "execution calls legalLimit (phases, testResults)"
    and fin: "joined phases"
  shows "testResults = run_in_order calls legalLimit Map.empty"
proof
  fix k
  from execution_inv [OF d ex] have inv: "thread_inv calls legalLimit (phases, testResults)" .
  show "testResults k = run_in_order calls legalLimit Map.empty k"
  proof (cases "k \<in> snd ` set calls")
    case False
    with inv show ?thesis
      by (simp add: thread_inv_def run_in_order_other)
  next
    case True
    then obtain i where i: "i < length calls" and k: "k = snd (calls ! i)"
      by (auto simp add: in_set_conv_nth)
    from inv i have "i < length phases"
      by (simp add: thread_inv_def)
    with fin have "phases ! i = Done"
      by (simp add: joined_def list_all_length)
    with inv i have "testResults k =
        (if dlt (getEmissionLevel (fst (calls ! i))) (double_of_int 0) then None
         else Some (dle (getEmissionLevel (fst (calls ! i))) legalLimit))"
      by (simp add: thread_inv_def k)
    moreover from i have "(fst (calls ! i), k) \<in> set calls"
      by (simp add: k)
    ultimately show ?thesis
      by (simp add: run_in_order_lookup [OF d])
  qed
qed


text \<open>
  Every fleet has an execution in which all threads are done: the threads can run one
  after the other.
\<close>

lemma update_next_thread:
  "k < n \<Longrightarrow>
   (replicate k Done @ replicate (n - k) Started)[k := Done] =
     replicate (Suc k) Done @ replicate (n - Suc k) Started"
proof -
  assume "k < n"
  then obtain m where m: "n - k = Suc m" and m': "n - Suc k = m"
    by (cases "n - k") simp_all
  show ?thesis
    by (simp add: m m' list_update_append replicate_app_Cons_same)
qed

lemma next_thread_started:
  "k < n \<Longrightarrow> (replicate k Done @ replicate (n - k) Started) ! k = Started"
  by (simp add: nth_append)

lemma execution_prefix:
  "k \<le> length calls \<Longrightarrow>
   \<exists>testResults. execution calls legalLimit
     (replicate k Done @ replicate (length calls - k) Started, testResults)"
proof (induction k)
  case 0
  have "execution calls legalLimit (replicate (length calls) Started, Map.empty)"
    by (rule execution.start)
  then show ?case by auto
next
  case (Suc k)
  let ?n = "length calls"
  let ?ph = "replicate k Done @ replicate (?n - k) Started"
  from Suc.prems have k: "k < ?n" by simp
  with Suc.IH obtain testResults where ex: "execution calls legalLimit (?ph, testResults)"
    by auto
  from k have st: "?ph ! k = Started"
    by (rule next_thread_started)
  have step1: "thread_step calls legalLimit (?ph, testResults)
      (?ph[k := thread_test (calls ! k) legalLimit], testResults)"
    using k st by (rule thread_step.test)
  with ex have ex1: "execution calls legalLimit
      (?ph[k := thread_test (calls ! k) legalLimit], testResults)"
    by (rule execution.step)
  obtain vehicle vid where c: "calls ! k = (vehicle, vid)" by (cases "calls ! k")
  show ?case
  proof (cases "dlt (getEmissionLevel vehicle) (double_of_int 0)")
    case True
    then have "thread_test (calls ! k) legalLimit = Done"
      by (simp add: c thread_test_cases)
    with ex1 update_next_thread [OF k] show ?thesis
      by auto
  next
    case False
    let ?b = "dle (getEmissionLevel vehicle) legalLimit"
    let ?ph1 = "?ph[k := Ready ?b]"
    from False have t: "thread_test (calls ! k) legalLimit = Ready ?b"
      by (simp add: c thread_test_cases)
    from k have "?ph1 ! k = Ready ?b"
      by simp
    with k have "thread_step calls legalLimit (?ph1, testResults)
        (?ph1[k := Done], testResults(snd (calls ! k) \<mapsto> ?b))"
      by (rule thread_step.store)
    with ex1 have "execution calls legalLimit
        (?ph1[k := Done], testResults(snd (calls ! k) \<mapsto> ?b))"
      unfolding t by (rule execution.step)
    with update_next_thread [OF k] show ?thesis
      by auto
  qed
qed

lemma execution_completes:
  "\<exists>phases testResults. execution calls legalLimit (phases, testResults) \<and> joined phases"
proof -
  from execution_prefix [of "length calls" calls legalLimit]
  obtain testResults where
    "execution calls legalLimit (replicate (length calls) Done, testResults)"
    by auto
  moreover have "joined (replicate (length calls) Done)"
    by (simp add: joined_def list_all_length)
  ultimately show ?thesis by blast
qed

lemma joined_lookup:
  assumes "execution (spawn vehicles 1) legalLimit (phases, testResults)" and "joined phases"
    and "(vehicle, vid) \<in> set (spawn vehicles 1)"
  shows "testResults vid =
     (if dlt (getEmissionLevel vehicle) (double_of_int 0) then None
      else Some (dle (getEmissionLevel vehicle) legalLimit))"
proof -
  have d: "distinct (map snd (spawn vehicles 1))"
    by (rule spawn_distinct) simp
  from execution_result [OF d assms(1,2)] run_in_order_lookup [OF d assms(3)]
  show ?thesis by simp
qed

lemma joined_card:
  assumes "execution (spawn vehicles 1) legalLimit (phases, testResults)" and "joined phases"
  shows "card (dom testResults) =
     length (filter (\<lambda>c. \<not> dlt (getEmissionLevel (fst c)) (double_of_int 0)) (spawn vehicles 1))"
proof -
  let ?ok = "\<lambda>c. \<not> dlt (getEmissionLevel (fst c)) (double_of_int 0)"
  have d: "distinct (map snd (spawn vehicles 1))"
    by (rule spawn_distinct) simp
  then have "distinct (map snd (filter ?ok (spawn vehicles 1)))"
    by (rule distinct_map_filter)
  then have "card (set (map snd (filter ?ok (spawn vehicles 1)))) =
      length (map snd (filter ?ok (spawn vehicles 1)))"
    by (rule distinct_card)
  then show ?thesis
    by (simp add: execution_result [OF d assms] run_in_order_dom)
qed

lemma vehicle_called:
  assumes "v \<in> set vehicles"
  shows "\<exists>vid. (v, vid) \<in> set (spawn vehicles 1)"
proof -
  from assms have "v \<in> set (map fst (spawn vehicles 1))"
    by (simp only: spawn_vehicles)
  then obtain c where "c \<in> set (spawn vehicles 1)" and "fst c = v"
    by auto
  then have "(v, snd c) \<in> set (spawn vehicles 1)"
    by (metis prod.collapse)
  then show ?thesis ..
qed

lemma call_vehicle:
  assumes "c \<in> set (spawn vehicles 1)"
  shows "fst c \<in> set vehicles"
proof -
  from assms have "fst c \<in> set (map fst (spawn vehicles 1))"
    by simp
  then show ?thesis
    by (simp only: spawn_vehicles)
qed

subsection \<open>The fleet of main and a fleet with a faulty vehicle\<close>

lemma dmul_2000: "dmul (double_of_int 2000) literal_0_1 = double_of_int 200"
  by (simp add: double_defs Let_def)

lemma dmul_1500: "dmul (double_of_int 1500) literal_0_1 = double_of_int 150"
  by (simp add: double_defs Let_def)

lemma dmul_minus_50: "dmul (double_of_int (- 50)) literal_0_1 = double_of_int (- 5)"
  by (simp add: double_defs Let_def)

lemma compare_minus_5:
  "dlt (double_of_int (- 5)) (double_of_int 0) \<and> \<not> dle (double_of_int 0) (double_of_int (- 5))"
  by (simp add: double_defs Let_def)

lemma compare_2000: "dle (double_of_int 0) (double_of_int 2000)"
  by (simp add: double_defs Let_def)

lemma digits_of_small: "n < 10 \<Longrightarrow> digits_of n = [digit_char n]"
  by (simp add: digits_of.simps [of n])

lemma spawn_main:
  "spawn main_vehicles 1 =
     [(main_vehicles ! 0, ''Vehicle_1''), (main_vehicles ! 1, ''Vehicle_2''),
      (main_vehicles ! 2, ''Vehicle_3'')]"
  by (simp add: main_vehicles_def to_string_def digits_of_small digit_char_def)

lemma spawn_faulty:
  "spawn [GasVehicle 5 ''BS6'' (double_of_int (- 50)) GasEmissionStrategy,
          ElectricVehicle 2 ''EV'' (double_of_int 50) ElectricEmissionStrategy] 1 =
     [(GasVehicle 5 ''BS6'' (double_of_int (- 50)) GasEmissionStrategy, ''Vehicle_1''),
      (ElectricVehicle 2 ''EV'' (double_of_int 50) ElectricEmissionStrategy, ''Vehicle_2'')]"
  by (simp add: to_string_def digits_of_small digit_char_def)

text \<open>
  An execution of the fleet of \<^verbatim>\<open>main\<close>: the third thread tests, the first tests and
  stores, the second tests, the third stores, the second stores.
\<close>

lemma execution_main:
  "execution (spawn main_vehicles 1) main_legalLimit
     ([Done, Done, Done],
      [''Vehicle_1'' \<mapsto> False, ''Vehicle_3'' \<mapsto> True, ''Vehicle_2'' \<mapsto> True])"
proof -
  let ?v1 = "GasVehicle 5 ''BS6'' (double_of_int 2000) GasEmissionStrategy"
  let ?v2 = "ElectricVehicle 2 ''EV'' (double_of_int 50) ElectricEmissionStrategy"
  let ?v3 = "GasVehicle 10 ''BS4'' (double_of_int 1500) GasEmissionStrategy"
  let ?cs = "[(?v1, ''Vehicle_1''), (?v2, ''Vehicle_2''), (?v3, ''Vehicle_3'')]"
  have calls: "spawn main_vehicles 1 = ?cs"
    by (simp add: spawn_main) (simp add: main_vehicles_def)
  have t1: "thread_test (?v1, ''Vehicle_1'') main_legalLimit = Ready False"
    using compare_200 by (simp add: thread_test_cases dmul_2000 dle_not_dlt)
  have t2: "thread_test (?v2, ''Vehicle_2'') main_legalLimit = Ready True"
    using compare_0 by (simp add: thread_test_cases dle_not_dlt)
  have t3: "thread_test (?v3, ''Vehicle_3'') main_legalLimit = Ready True"
    using compare_150 by (simp add: thread_test_cases dmul_1500 dle_not_dlt)
  have e0: "execution ?cs main_legalLimit ([Started, Started, Started], Map.empty)"
    using execution.start [of ?cs main_legalLimit] by (simp add: numeral_3_eq_3)
  have "thread_step ?cs main_legalLimit ([Started, Started, Started], Map.empty)
      ([Started, Started, Ready True], Map.empty)"
    using thread_step.test [of 2 ?cs "[Started, Started, Started]" main_legalLimit Map.empty]
    by (simp add: t3)
  with e0 have e1: "execution ?cs main_legalLimit ([Started, Started, Ready True], Map.empty)"
    by (rule execution.step)
  have "thread_step ?cs main_legalLimit ([Started, Started, Ready True], Map.empty)
      ([Ready False, Started, Ready True], Map.empty)"
    using thread_step.test [of 0 ?cs "[Started, Started, Ready True]" main_legalLimit Map.empty]
    by (simp add: t1)
  with e1 have e2: "execution ?cs main_legalLimit ([Ready False, Started, Ready True], Map.empty)"
    by (rule execution.step)
  have "thread_step ?cs main_legalLimit ([Ready False, Started, Ready True], Map.empty)
      ([Done, Started, Ready True], [''Vehicle_1'' \<mapsto> False])"
    using thread_step.store [of 0 ?cs "[Ready False, Started, Ready True]" False
        main_legalLimit Map.empty]
    by simp
  with e2 have e3: "execution ?cs main_legalLimit
      ([Done, Started, Ready True], [''Vehicle_1'' \<mapsto> False])"
    by (rule execution.step)
  have "thread_step ?cs main_legalLimit
      ([Done, Started, Ready True], [''Vehicle_1'' \<mapsto> False])
      ([Done, Ready True, Ready True], [''Vehicle_1'' \<mapsto> False])"
    using thread_step.test [of 1 ?cs "[Done, Started, Ready True]" main_legalLimit
        "[''Vehicle_1'' \<mapsto> False]"]
    by (simp add: t2)
  with e3 have e4: "execution ?cs main_legalLimit
      ([Done, Ready True, Ready True], [''Vehicle_1'' \<mapsto> False])"
    by (rule execution.step)
  have "thread_step ?cs main_legalLimit
      ([Done, Ready True, Ready True], [''Vehicle_1'' \<mapsto> False])
      ([Done, Ready True, Done], [''Vehicle_1'' \<mapsto> False, ''Vehicle_3'' \<mapsto> True])"
    using thread_step.store [of 2 ?cs "[Done, Ready True, Ready True]" True main_legalLimit
        "[''Vehicle_1'' \<mapsto> False]"]
    by simp
  with e4 have e5: "execution ?cs main_legalLimit
      ([Done, Ready True, Done], [''Vehicle_1'' \<mapsto> False, ''Vehicle_3'' \<mapsto> True])"
    by (rule execution.step)
  have "thread_step ?cs main_legalLimit
      ([Done, Ready True, Done], [''Vehicle_1'' \<mapsto> False, ''Vehicle_3'' \<mapsto> True])
      ([Done, Done, Done],
       [''Vehicle_1'' \<mapsto> False, ''Vehicle_3'' \<mapsto> True, ''Vehicle_2'' \<mapsto> True])"
    using thread_step.store [of 1 ?cs "[Done, Ready True, Done]" True main_legalLimit
        "[''Vehicle_1'' \<mapsto> False, ''Vehicle_3'' \<mapsto> True]"]
    by simp
  with e5 have "execution ?cs main_legalLimit
      ([Done, Done, Done],
       [''Vehicle_1'' \<mapsto> False, ''Vehicle_3'' \<mapsto> True, ''Vehicle_2'' \<mapsto> True])"
    by (rule execution.step)
  then show ?thesis
    by (simp only: calls)
qed

text \<open>
  An execution of a fleet whose first vehicle has a negative engine size: the second
  thread tests, the first tests and is done at once, the second stores.
\<close>

lemma execution_faulty:
  "execution
     (spawn [GasVehicle 5 ''BS6'' (double_of_int (- 50)) GasEmissionStrategy,
             ElectricVehicle 2 ''EV'' (double_of_int 50) ElectricEmissionStrategy] 1)
     main_legalLimit ([Done, Done], [''Vehicle_2'' \<mapsto> True])"
proof -
  let ?bad = "GasVehicle 5 ''BS6'' (double_of_int (- 50)) GasEmissionStrategy"
  let ?ev = "ElectricVehicle 2 ''EV'' (double_of_int 50) ElectricEmissionStrategy"
  let ?cs = "[(?bad, ''Vehicle_1''), (?ev, ''Vehicle_2'')]"
  have t0: "thread_test (?bad, ''Vehicle_1'') main_legalLimit = Done"
    by (simp add: thread_test_cases dmul_minus_50 compare_minus_5)
  have t1: "thread_test (?ev, ''Vehicle_2'') main_legalLimit = Ready True"
    using compare_0 by (simp add: thread_test_cases dle_not_dlt)
  have e0: "execution ?cs main_legalLimit ([Started, Started], Map.empty)"
    using execution.start [of ?cs main_legalLimit] by simp
  have "thread_step ?cs main_legalLimit ([Started, Started], Map.empty)
      ([Started, Ready True], Map.empty)"
    using thread_step.test [of 1 ?cs "[Started, Started]" main_legalLimit Map.empty]
    by (simp add: t1)
  with e0 have e1: "execution ?cs main_legalLimit ([Started, Ready True], Map.empty)"
    by (rule execution.step)
  have "thread_step ?cs main_legalLimit ([Started, Ready True], Map.empty)
      ([Done, Ready True], Map.empty)"
    using thread_step.test [of 0 ?cs "[Started, Ready True]" main_legalLimit Map.empty]
    by (simp add: t0)
  with e1 have e2: "execution ?cs main_legalLimit ([Done, Ready True], Map.empty)"
    by (rule execution.step)
  have "thread_step ?cs main_legalLimit ([Done, Ready True], Map.empty)
      ([Done, Done], [''Vehicle_2'' \<mapsto> True])"
    using thread_step.store [of 1 ?cs "[Done, Ready True]" True main_legalLimit Map.empty]
    by simp
  with e2 have "execution ?cs main_legalLimit ([Done, Done], [''Vehicle_2'' \<mapsto> True])"
    by (rule execution.step)
  then show ?thesis
    by (simp only: spawn_faulty)
qed

lemma joined_examples: "joined [Done, Done]" "joined [Done, Done, Done]"
  by (simp_all add: joined_def)

lemma main_nonneg: "\<forall>v \<in> set main_vehicles. dle (double_of_int 0) (getEmissionLevel v)"
  by (simp add: main_vehicles_def dmul_2000 dmul_1500 compare_200 compare_150 compare_0)

subsection \<open>The runner, the strategies and the query\<close>

text \<open>
  C3: when the test execution of \<^verbatim>\<open>runTest\<close> throws, whatever the exception,
  \<^verbatim>\<open>runTest\<close> returns the registry as it received it: no entry is written for the
  identifier and every other entry is as before. When the execution returns,
  \<^verbatim>\<open>runTest\<close> stores the verdict under the identifier. So after every execution of the
  threads of a fleet, the identifier of a vehicle is missing from the registry exactly
  when its test threw, while a completed, non-compliant test has the entry false.
\<close>

theorem failed_test_not_recorded:
  "(fst (performTest (new_EmissionTest vid PendingState) vehicle legalLimit) \<noteq> None \<longrightarrow>
      fst (runTest vehicle vid legalLimit testResults) = testResults)
   \<and> (fst (performTest (new_EmissionTest vid PendingState) vehicle legalLimit) = None \<longrightarrow>
      fst (runTest vehicle vid legalLimit testResults) =
        testResults(vid \<mapsto> getComplianceStatus
          (fst (snd (performTest (new_EmissionTest vid PendingState) vehicle legalLimit)))))
   \<and> (execution (spawn vehicles 1) legalLimit (phases, finalResults) \<and> joined phases
        \<and> (v, ident) \<in> set (spawn vehicles 1) \<longrightarrow>
        (finalResults ident = None \<longleftrightarrow>
         fst (performTest (new_EmissionTest ident PendingState) v legalLimit) \<noteq> None))"
proof (intro conjI impI)
  assume "fst (performTest (new_EmissionTest vid PendingState) vehicle legalLimit) \<noteq> None"
  then have "dlt (getEmissionLevel vehicle) (double_of_int 0)"
    by (simp only: performTest_fresh_thrown)
  then show "fst (runTest vehicle vid legalLimit testResults) = testResults"
    by (rule runTest_throws)
next
  assume "fst (performTest (new_EmissionTest vid PendingState) vehicle legalLimit) = None"
  then have ok: "\<not> dlt (getEmissionLevel vehicle) (double_of_int 0)"
    using performTest_fresh_thrown [of vid vehicle legalLimit] by simp
  then show "fst (runTest vehicle vid legalLimit testResults) =
        testResults(vid \<mapsto> getComplianceStatus
          (fst (snd (performTest (new_EmissionTest vid PendingState) vehicle legalLimit))))"
    by (simp add: runTest_completes performTest_Pending new_EmissionTest_def InProgress_ok
        prepend_output_def getComplianceStatus_def)
next
  assume "execution (spawn vehicles 1) legalLimit (phases, finalResults) \<and> joined phases
        \<and> (v, ident) \<in> set (spawn vehicles 1)"
  then have "execution (spawn vehicles 1) legalLimit (phases, finalResults)"
    and "joined phases" and "(v, ident) \<in> set (spawn vehicles 1)"
    by simp_all
  then have "finalResults ident = None \<longleftrightarrow> dlt (getEmissionLevel v) (double_of_int 0)"
    by (simp add: joined_lookup [of vehicles legalLimit phases finalResults v ident])
  also have "\<dots> \<longleftrightarrow> fst (performTest (new_EmissionTest ident PendingState) v legalLimit) \<noteq> None"
    by (rule performTest_fresh_thrown [symmetric])
  finally show "finalResults ident = None \<longleftrightarrow>
         fst (performTest (new_EmissionTest ident PendingState) v legalLimit) \<noteq> None" .
qed

theorem failed_test_not_recorded_witness:
  "fst (performTest (new_EmissionTest ''Vehicle_1'' PendingState)
        (GasVehicle 5 ''BS6'' (double_of_int (- 50)) GasEmissionStrategy) main_legalLimit) \<noteq> None
   \<and> fst (runTest (GasVehicle 5 ''BS6'' (double_of_int (- 50)) GasEmissionStrategy)
        ''Vehicle_1'' main_legalLimit [''Vehicle_2'' \<mapsto> True]) = [''Vehicle_2'' \<mapsto> True]
   \<and> fst (performTest (new_EmissionTest ''Vehicle_1'' PendingState)
        (GasVehicle 5 ''BS6'' (double_of_int 2000) GasEmissionStrategy) main_legalLimit) = None
   \<and> fst (runTest (GasVehicle 5 ''BS6'' (double_of_int 2000) GasEmissionStrategy)
        ''Vehicle_1'' main_legalLimit [''Vehicle_2'' \<mapsto> True])
       = [''Vehicle_2'' \<mapsto> True, ''Vehicle_1'' \<mapsto> False]
   \<and> execution
        (spawn [GasVehicle 5 ''BS6'' (double_of_int (- 50)) GasEmissionStrategy,
                ElectricVehicle 2 ''EV'' (double_of_int 50) ElectricEmissionStrategy] 1)
        main_legalLimit ([Done, Done], [''Vehicle_2'' \<mapsto> True])
   \<and> joined [Done, Done]
   \<and> (GasVehicle 5 ''BS6'' (double_of_int (- 50)) GasEmissionStrategy, ''Vehicle_1'')
       \<in> set (spawn [GasVehicle 5 ''BS6'' (double_of_int (- 50)) GasEmissionStrategy,
             ElectricVehicle 2 ''EV'' (double_of_int 50) ElectricEmissionStrategy] 1)
   \<and> [''Vehicle_2'' \<mapsto> True] ''Vehicle_1'' = None"
proof -
  let ?bad = "GasVehicle 5 ''BS6'' (double_of_int (- 50)) GasEmissionStrategy"
  let ?ev = "ElectricVehicle 2 ''EV'' (double_of_int 50) ElectricEmissionStrategy"
  let ?v = "GasVehicle 5 ''BS6'' (double_of_int 2000) GasEmissionStrategy"
  have f: "fst (performTest (new_EmissionTest ''Vehicle_1'' PendingState) ?bad main_legalLimit) \<noteq> None"
    by (simp only: performTest_fresh_thrown) (simp add: dmul_minus_50 compare_minus_5)
  have ok: "\<not> dlt (getEmissionLevel ?v) (double_of_int 0)"
    using compare_200 by (simp add: dmul_2000 dle_not_dlt)
  then have g: "fst (performTest (new_EmissionTest ''Vehicle_1'' PendingState) ?v main_legalLimit) = None"
    using performTest_fresh_thrown [of "''Vehicle_1''" ?v main_legalLimit] by simp
  have verdict: "getComplianceStatus
      (fst (snd (performTest (new_EmissionTest ''Vehicle_1'' PendingState) ?v main_legalLimit))) = False"
    using ok compare_200
    by (simp add: performTest_Pending new_EmissionTest_def InProgress_ok prepend_output_def
        getComplianceStatus_def dmul_2000)
  have m: "(?bad, ''Vehicle_1'') \<in> set (spawn [?bad, ?ev] 1)"
    by (simp only: spawn_faulty) simp
  from f g m verdict execution_faulty joined_examples(1)
    failed_test_not_recorded [of "''Vehicle_1''" ?bad main_legalLimit "[''Vehicle_2'' \<mapsto> True]"
      "[?bad, ?ev]" "[Done, Done]" "[''Vehicle_2'' \<mapsto> True]" ?bad "''Vehicle_1''"]
    failed_test_not_recorded [of "''Vehicle_1''" ?v main_legalLimit "[''Vehicle_2'' \<mapsto> True]"]
  show ?thesis
    by simp
qed

text \<open>
  C5: for a fleet of N vehicles and every execution of its threads that has reached
  the end of the joins: if the emission level of every vehicle is non-negative, the
  registry has exactly N entries; if the emission level of some vehicle is negative, it
  has fewer than N entries, and the identifier of every vehicle with a negative emission
  level has no entry.
\<close>

theorem registry_entry_count:
  assumes "execution (spawn vehicles 1) legalLimit (phases, testResults)" and "joined phases"
  shows "((\<forall>v \<in> set vehicles. dle (double_of_int 0) (getEmissionLevel v)) \<longrightarrow>
            card (dom testResults) = length vehicles)
       \<and> ((\<exists>v \<in> set vehicles. dlt (getEmissionLevel v) (double_of_int 0)) \<longrightarrow>
            card (dom testResults) < length vehicles
            \<and> (\<forall>c \<in> set (spawn vehicles 1).
                  dlt (getEmissionLevel (fst c)) (double_of_int 0) \<longrightarrow>
                  testResults (snd c) = None))"
proof (intro conjI impI ballI)
  let ?ok = "\<lambda>c. \<not> dlt (getEmissionLevel (fst c)) (double_of_int 0)"
  assume all: "\<forall>v \<in> set vehicles. dle (double_of_int 0) (getEmissionLevel v)"
  have "\<forall>c \<in> set (spawn vehicles 1). ?ok c"
    using all call_vehicle dle_not_dlt by blast
  then have "filter ?ok (spawn vehicles 1) = spawn vehicles 1"
    by simp
  then show "card (dom testResults) = length vehicles"
    by (simp add: joined_card [OF assms] spawn_length)
next
  let ?ok = "\<lambda>c. \<not> dlt (getEmissionLevel (fst c)) (double_of_int 0)"
  assume "\<exists>v \<in> set vehicles. dlt (getEmissionLevel v) (double_of_int 0)"
  then obtain v where "v \<in> set vehicles" and neg: "dlt (getEmissionLevel v) (double_of_int 0)"
    by blast
  with vehicle_called obtain vid where "(v, vid) \<in> set (spawn vehicles 1)"
    by blast
  with neg have "length (filter ?ok (spawn vehicles 1)) < length (spawn vehicles 1)"
    by (intro length_filter_less [of "(v, vid)"]) simp_all
  then show "card (dom testResults) < length vehicles"
    by (simp add: joined_card [OF assms] spawn_length)
next
  fix c
  assume "c \<in> set (spawn vehicles 1)" and "dlt (getEmissionLevel (fst c)) (double_of_int 0)"
  then show "testResults (snd c) = None"
    using joined_lookup [OF assms, of "fst c" "snd c"] by simp
qed

theorem registry_entry_count_witness:
  "execution (spawn main_vehicles 1) main_legalLimit
     ([Done, Done, Done],
      [''Vehicle_1'' \<mapsto> False, ''Vehicle_3'' \<mapsto> True, ''Vehicle_2'' \<mapsto> True])
   \<and> joined [Done, Done, Done]
   \<and> dle (double_of_int 0) (getEmissionLevel (main_vehicles ! 0))
   \<and> dle (double_of_int 0) (getEmissionLevel (main_vehicles ! 1))
   \<and> dle (double_of_int 0) (getEmissionLevel (main_vehicles ! 2))
   \<and> card (dom [''Vehicle_1'' \<mapsto> False, ''Vehicle_3'' \<mapsto> True, ''Vehicle_2'' \<mapsto> True]) = 3
   \<and> execution
        (spawn [GasVehicle 5 ''BS6'' (double_of_int (- 50)) GasEmissionStrategy,
                ElectricVehicle 2 ''EV'' (double_of_int 50) ElectricEmissionStrategy] 1)
        main_legalLimit ([Done, Done], [''Vehicle_2'' \<mapsto> True])
   \<and> joined [Done, Done]
   \<and> dlt (getEmissionLevel (GasVehicle 5 ''BS6'' (double_of_int (- 50)) GasEmissionStrategy))
        (double_of_int 0)
   \<and> card (dom [''Vehicle_2'' \<mapsto> True]) < 2
   \<and> [''Vehicle_2'' \<mapsto> True] ''Vehicle_1'' = None"
proof -
  let ?bad = "GasVehicle 5 ''BS6'' (double_of_int (- 50)) GasEmissionStrategy"
  let ?ev = "ElectricVehicle 2 ''EV'' (double_of_int 50) ElectricEmissionStrategy"
  have n: "dlt (getEmissionLevel ?bad) (double_of_int 0)"
    by (simp add: dmul_minus_50 compare_minus_5)
  from execution_main execution_faulty joined_examples main_nonneg n
    registry_entry_count [OF execution_main joined_examples(2)]
    registry_entry_count [OF execution_faulty joined_examples(1)]
  show ?thesis
    by (simp add: main_vehicles_def dmul_2000 dmul_1500 compare_200 compare_150 compare_0)
qed


text \<open>
  C7: the vehicle at position \<open>i\<close> (counted from 0, so \<open>i + 1\<close> counted from 1) is
  started with the identifier "Vehicle\_" followed by the decimal numeral of \<open>i + 1\<close>
  (digits only, no leading zero, with the value \<open>i + 1\<close>), and
  after every execution of the threads the verdict of that vehicle is what the registry
  holds under that identifier (no entry when its test threw).
\<close>

theorem vehicle_identifier:
  assumes "i < length vehicles"
    and "execution (spawn vehicles 1) legalLimit (phases, testResults)" and "joined phases"
  shows "spawn vehicles 1 ! i = (vehicles ! i, ''Vehicle_'' @ to_string (int i + 1))
       \<and> list_all isdigit (to_string (int i + 1))
       \<and> hd (to_string (int i + 1)) \<noteq> CHR ''0''
       \<and> decimal_value (to_string (int i + 1)) = i + 1
       \<and> testResults (''Vehicle_'' @ to_string (int i + 1)) =
           (if dlt (getEmissionLevel (vehicles ! i)) (double_of_int 0) then None
            else Some (dle (getEmissionLevel (vehicles ! i)) legalLimit))"
proof -
  from assms(1) have nth: "spawn vehicles 1 ! i = (vehicles ! i, ''Vehicle_'' @ to_string (int i + 1))"
    by (simp add: spawn_nth add.commute)
  from assms(1) have "spawn vehicles 1 ! i \<in> set (spawn vehicles 1)"
    by (simp add: spawn_length)
  with nth have "(vehicles ! i, ''Vehicle_'' @ to_string (int i + 1)) \<in> set (spawn vehicles 1)"
    by simp
  from joined_lookup [OF assms(2,3) this] nth to_string_decimal [of "int i + 1"]
  show ?thesis
    by simp
qed

theorem vehicle_identifier_witness:
  "2 < length main_vehicles
   \<and> execution (spawn main_vehicles 1) main_legalLimit
     ([Done, Done, Done],
      [''Vehicle_1'' \<mapsto> False, ''Vehicle_3'' \<mapsto> True, ''Vehicle_2'' \<mapsto> True])
   \<and> joined [Done, Done, Done]
   \<and> spawn main_vehicles 1 ! 2 = (main_vehicles ! 2, ''Vehicle_3'')
   \<and> [''Vehicle_1'' \<mapsto> False, ''Vehicle_3'' \<mapsto> True, ''Vehicle_2'' \<mapsto> True] ''Vehicle_3''
       = Some (dle (getEmissionLevel (main_vehicles ! 2)) main_legalLimit)"
proof -
  have l: "2 < length main_vehicles"
    by (simp add: main_vehicles_def)
  have e: "getEmissionLevel (main_vehicles ! 2) = double_of_int 150"
    by (simp add: main_vehicles_def dmul_1500)
  have c: "\<not> dlt (double_of_int 150) (double_of_int 0)"
    using compare_150 by (simp add: dle_not_dlt)
  from l execution_main joined_examples(2)
    vehicle_identifier [OF l execution_main joined_examples(2)]
  show ?thesis
    by (simp add: e c compare_150 to_string_def digits_of_small digit_char_def)
qed

text \<open>
  C8, evaluated on the code: an identifier shorter than 8 characters makes
  \<^verbatim>\<open>substr(8)\<close> throw, and an identifier with no number after the first 8 characters,
  or with a number beyond the range of \<^verbatim>\<open>int\<close>, makes \<^verbatim>\<open>std::stoi\<close> throw. Nothing
  catches the exception, so the program terminates instead of printing a message. Only
  an identifier whose number is outside the fleet reaches the message
  "Invalid Vehicle ID."; the first 8 characters are never looked at, so an identifier
  that does not start with "Vehicle\_" is answered like one that does.
\<close>

theorem malformed_identifier_terminates:
  "checkVehicleDetails main_vehicles ''abc'' = Terminated (out_of_range ''basic_string::substr'')
   \<and> checkVehicleDetails main_vehicles ''Vehicle_'' = Terminated (invalid_argument ''stoi'')
   \<and> checkVehicleDetails main_vehicles ''Vehicle_x'' = Terminated (invalid_argument ''stoi'')
   \<and> checkVehicleDetails main_vehicles ''Vehicle_99999999999'' = Terminated (out_of_range ''stoi'')
   \<and> checkVehicleDetails main_vehicles ''Vehicle_7'' =
       Printed (put cout [Str ''Invalid Vehicle ID.'', Endl])
   \<and> checkVehicleDetails main_vehicles ''Garbage!2'' = Printed (displayDetails (main_vehicles ! 1))"
  by (simp add: checkVehicleDetails_def substr_def stoi_def isspace_def isdigit_def
      decimal_value_def digit_value_def Let_def main_vehicles_def)

text \<open>
  C10: for a Gas or Electric vehicle built with either strategy and a non-negative
  parameter, the emission level is non-negative; so \<^verbatim>\<open>performTest\<close> on a fresh record
  does not throw and ends in the Completed state, and \<^verbatim>\<open>runTest\<close> stores the verdict
  under the identifier of the vehicle.
\<close>

theorem nonnegative_parameter_completes:
  assumes "vehicle = GasVehicle a e p strategy \<or> vehicle = ElectricVehicle a e p strategy"
    and "dle (double_of_int 0) p"
  shows "dle (double_of_int 0) (getEmissionLevel vehicle)
       \<and> fst (performTest (new_EmissionTest vid PendingState) vehicle legalLimit) = None
       \<and> state (fst (snd (performTest (new_EmissionTest vid PendingState) vehicle legalLimit)))
           = CompletedState
       \<and> fst (runTest vehicle vid legalLimit testResults) vid =
           Some (dle (getEmissionLevel vehicle) legalLimit)"
proof -
  have "dle (double_of_int 0) (calculateEmission strategy p)"
  proof (cases strategy)
    case GasEmissionStrategy
    with assms(2) show ?thesis
      by (simp add: dmul_literal_0_1_nonneg)
  next
    case ElectricEmissionStrategy
    with compare_0 show ?thesis
      by simp
  qed
  with assms(1) have nonneg: "dle (double_of_int 0) (getEmissionLevel vehicle)"
    by auto
  then have ok: "\<not> dlt (getEmissionLevel vehicle) (double_of_int 0)"
    by (rule dle_not_dlt)
  from nonneg ok show ?thesis
    by (simp add: runTest_completes performTest_Pending new_EmissionTest_def InProgress_ok
        prepend_output_def)
qed

theorem nonnegative_parameter_completes_witness:
  "dle (double_of_int 0) (double_of_int 2000)
   \<and> dle (double_of_int 0)
       (getEmissionLevel (GasVehicle 5 ''BS6'' (double_of_int 2000) GasEmissionStrategy))
   \<and> fst (performTest (new_EmissionTest ''Vehicle_1'' PendingState)
        (GasVehicle 5 ''BS6'' (double_of_int 2000) GasEmissionStrategy) main_legalLimit) = None
   \<and> fst (runTest (GasVehicle 5 ''BS6'' (double_of_int 2000) GasEmissionStrategy)
        ''Vehicle_1'' main_legalLimit Map.empty) ''Vehicle_1'' = Some False"
proof -
  let ?v = "GasVehicle 5 ''BS6'' (double_of_int 2000) GasEmissionStrategy"
  have d: "?v = GasVehicle 5 ''BS6'' (double_of_int 2000) GasEmissionStrategy
      \<or> ?v = ElectricVehicle 5 ''BS6'' (double_of_int 2000) GasEmissionStrategy"
    by simp
  from compare_2000 compare_200
    nonnegative_parameter_completes [OF d compare_2000, of "''Vehicle_1''" main_legalLimit Map.empty]
  show ?thesis
    by (simp add: dmul_2000)
qed

end
